theory Spec2Isabelle
  imports Main
begin

section \<open>JavaScript values\<close>

text \<open>
  The logger of \<^verbatim>\<open>packages/nextjs/src/core/logger.ts\<close> is typed loosely: the
  arguments of a level method, the configured \<^verbatim>\<open>args\<close> and the request context are
  \<^verbatim>\<open>any\<close>, and the code inspects them at run time (\<^verbatim>\<open>instanceof Error\<close>,
  \<^verbatim>\<open>typeof\<close>, \<^verbatim>\<open>Object.keys\<close>, truthiness, \<^verbatim>\<open>.length\<close>). The model therefore
  works on a datatype of JavaScript values. It holds plain data: \<^verbatim>\<open>undefined\<close>,
  \<^verbatim>\<open>null\<close>, booleans, integral numbers, BigInts, strings, arrays, plain objects (their
  own enumerable properties, in insertion order) and \<^verbatim>\<open>Error\<close> instances (name,
  message, optional stack, and the enumerable properties of a custom error). Fractional
  numbers, NaN, functions, symbols, cyclic objects and objects with accessors or a
  \<^verbatim>\<open>toJSON\<close> method are outside the model, and so is the rule that moves keys that
  look like array indices to the front of an object: the statements below are about the
  value a key holds, not about the order of the keys.
\<close>

datatype jsval =
    JUndefined
  | JNull
  | JBool bool
  | JNum int
  | JBigInt int
  | JStr string
  | JArr "jsval list"
  | JObj "(string \<times> jsval) list"
  | JError string string "string option" "(string \<times> jsval) list"

type_synonym jsobj = "(string \<times> jsval) list"

text \<open>A call either returns or throws a JavaScript value.\<close>

datatype 'a completion = Normal 'a | Throw jsval

text \<open>The errors the built-ins of the platform throw (their message texts are V8's).\<close>

definition TypeError :: "string \<Rightarrow> jsval" where
  "TypeError msg = JError ''TypeError'' msg None []"

definition SyntaxError :: "string \<Rightarrow> jsval" where
  "SyntaxError msg = JError ''SyntaxError'' msg None []"

fun truthy :: "jsval \<Rightarrow> bool" where
  "truthy JUndefined = False"
| "truthy JNull = False"
| "truthy (JBool b) = b"
| "truthy (JNum n) = (n \<noteq> 0)"
| "truthy (JBigInt n) = (n \<noteq> 0)"
| "truthy (JStr s) = (s \<noteq> [])"
| "truthy (JArr xs) = True"
| "truthy (JObj es) = True"
| "truthy (JError n m st ps) = True"

fun js_typeof :: "jsval \<Rightarrow> string" where
  "js_typeof JUndefined = ''undefined''"
| "js_typeof JNull = ''object''"
| "js_typeof (JBool b) = ''boolean''"
| "js_typeof (JNum n) = ''number''"
| "js_typeof (JBigInt n) = ''bigint''"
| "js_typeof (JStr s) = ''string''"
| "js_typeof (JArr xs) = ''object''"
| "js_typeof (JObj es) = ''object''"
| "js_typeof (JError n m st ps) = ''object''"

text \<open>\<^verbatim>\<open>value instanceof Error\<close>\<close>

fun instanceof_Error :: "jsval \<Rightarrow> bool" where
  "instanceof_Error (JError n m st ps) = True"
| "instanceof_Error v = False"

subsection \<open>Decimal numerals\<close>

definition digit_char :: "nat \<Rightarrow> char" where
  "digit_char n = ''0123456789'' ! (n mod 10)"

fun show_nat :: "nat \<Rightarrow> string" where
  "show_nat n = (if n < 10 then [digit_char n] else show_nat (n div 10) @ [digit_char n])"

declare show_nat.simps [simp del]

definition show_int :: "int \<Rightarrow> string" where
  "show_int i = (if i < 0 then CHR ''-'' # show_nat (nat (- i)) else show_nat (nat i))"

subsection \<open>Properties, spread and property assignment\<close>

text \<open>
  \<open>set_prop k v o\<close> is the assignment \<^verbatim>\<open>o[k] = v\<close> on the own properties of an
  object: an existing key keeps its place, a new key goes last.
\<close>

fun set_prop :: "string \<Rightarrow> jsval \<Rightarrow> jsobj \<Rightarrow> jsobj" where
  "set_prop k v [] = [(k, v)]"
| "set_prop k v ((k', v') # es) =
     (if k' = k then (k, v) # es else (k', v') # set_prop k v es)"

fun index_entries :: "nat \<Rightarrow> jsval list \<Rightarrow> jsobj" where
  "index_entries i [] = []"
| "index_entries i (x # xs) = (show_nat i, x) # index_entries (Suc i) xs"

text \<open>
  The own enumerable string-keyed properties of a value, as \<^verbatim>\<open>Object.keys\<close> and the
  spread \<^verbatim>\<open>{...v}\<close> see them: the entries of an object, the indices of an array or of
  a string, the custom properties of an error (its name, message and stack are not
  enumerable), nothing for the other primitives.
\<close>

fun own_entries :: "jsval \<Rightarrow> jsobj" where
  "own_entries (JObj es) = es"
| "own_entries (JArr xs) = index_entries 0 xs"
| "own_entries (JStr s) = index_entries 0 (map (\<lambda>c. JStr [c]) s)"
| "own_entries (JError n m st ps) = ps"
| "own_entries v = []"

definition Object_keys :: "jsval \<Rightarrow> string list" where
  "Object_keys v = map fst (own_entries v)"

text \<open>\<open>spread_into o v\<close> continues the object literal \<^verbatim>\<open>{...o, ...v}\<close>.\<close>

definition spread_into :: "jsobj \<Rightarrow> jsval \<Rightarrow> jsobj" where
  "spread_into obj v = fold (\<lambda>(k, x). set_prop k x) (own_entries v) obj"

definition lookup :: "jsobj \<Rightarrow> string \<Rightarrow> jsval" where
  "lookup es k = (case map_of es k of Some x \<Rightarrow> x | None \<Rightarrow> JUndefined)"

text \<open>
  The property read \<^verbatim>\<open>v[k]\<close> of a value that is neither \<^verbatim>\<open>null\<close> nor
  \<^verbatim>\<open>undefined\<close> (the source guards each read of a value that may be one of them). The
  name, message and stack of an error are the ones the constructor \<open>JError\<close> carries.
\<close>

fun get_prop :: "jsval \<Rightarrow> string \<Rightarrow> jsval" where
  "get_prop (JObj es) k = lookup es k"
| "get_prop (JArr xs) k =
     (if k = ''length'' then JNum (int (length xs)) else lookup (own_entries (JArr xs)) k)"
| "get_prop (JStr s) k =
     (if k = ''length'' then JNum (int (length s)) else lookup (own_entries (JStr s)) k)"
| "get_prop (JError n m st ps) k =
     (if k = ''name'' then JStr n
      else if k = ''message'' then JStr m
      else if k = ''stack'' then (case st of None \<Rightarrow> JUndefined | Some s \<Rightarrow> JStr s)
      else lookup ps k)"
| "get_prop v k = JUndefined"

subsection \<open>Conversions and the relational comparison\<close>

fun intercalate :: "string \<Rightarrow> string list \<Rightarrow> string" where
  "intercalate sep [] = []"
| "intercalate sep [x] = x"
| "intercalate sep (x # y # ys) = x @ sep @ intercalate sep (y # ys)"

text \<open>
  \<^verbatim>\<open>v.toString()\<close>. The constructor calls it on a truthy value only; on
  \<^verbatim>\<open>null\<close> and \<^verbatim>\<open>undefined\<close>, where the call would throw, the function gives the
  empty string that \<^verbatim>\<open>Array.prototype.join\<close> uses for them.
\<close>

fun toString_js :: "jsval \<Rightarrow> string" where
  "toString_js JUndefined = []"
| "toString_js JNull = []"
| "toString_js (JBool b) = (if b then ''true'' else ''false'')"
| "toString_js (JNum n) = show_int n"
| "toString_js (JBigInt n) = show_int n"
| "toString_js (JStr s) = s"
| "toString_js (JArr xs) = intercalate '','' (map toString_js xs)"
| "toString_js (JObj es) = ''[object Object]''"
| "toString_js (JError n m st ps) =
     (if n = [] then m else if m = [] then n else n @ '': '' @ m)"

fun digit_value :: "char \<Rightarrow> nat option" where
  "digit_value c =
     (let n = of_char c :: nat in if 48 \<le> n \<and> n \<le> 57 then Some (n - 48) else None)"

fun parse_digits :: "nat \<Rightarrow> string \<Rightarrow> nat option" where
  "parse_digits acc [] = Some acc"
| "parse_digits acc (c # cs) =
     (case digit_value c of None \<Rightarrow> None | Some d \<Rightarrow> parse_digits (10 * acc + d) cs)"

text \<open>
  \<^verbatim>\<open>Number(s)\<close> of a string, on the integral decimal literals: \<open>None\<close> is NaN. (The
  strings compared in the logger are the names of the log levels.)
\<close>

definition string_to_number :: "string \<Rightarrow> int option" where
  "string_to_number s =
     (if s = [] then Some 0
      else if hd s = CHR ''-'' \<and> tl s \<noteq> [] then map_option (\<lambda>n. - int n) (parse_digits 0 (tl s))
      else map_option int (parse_digits 0 s))"

fun to_number :: "jsval \<Rightarrow> int option" where
  "to_number JUndefined = None"
| "to_number JNull = Some 0"
| "to_number (JBool b) = Some (if b then 1 else 0)"
| "to_number (JNum n) = Some n"
| "to_number (JBigInt n) = Some n"
| "to_number (JStr s) = string_to_number s"
| "to_number v = string_to_number (toString_js v)"

fun str_lt :: "string \<Rightarrow> string \<Rightarrow> bool" where
  "str_lt [] [] = False"
| "str_lt [] (d # ds) = True"
| "str_lt (c # cs) [] = False"
| "str_lt (c # cs) (d # ds) =
     ((of_char c :: nat) < of_char d \<or> (c = d \<and> str_lt cs ds))"

fun to_primitive :: "jsval \<Rightarrow> jsval" where
  "to_primitive (JArr xs) = JStr (toString_js (JArr xs))"
| "to_primitive (JObj es) = JStr (toString_js (JObj es))"
| "to_primitive (JError n m st ps) = JStr (toString_js (JError n m st ps))"
| "to_primitive v = v"

text \<open>
  \<^verbatim>\<open>a < b\<close>: two strings compare by code units, anything else as numbers, and a
  comparison with NaN is false.
\<close>

definition js_lt :: "jsval \<Rightarrow> jsval \<Rightarrow> bool" where
  "js_lt a b =
     (case (to_primitive a, to_primitive b) of
        (JStr s, JStr t) \<Rightarrow> str_lt s t
      | (x, y) \<Rightarrow> (case (to_number x, to_number y) of
                     (Some m, Some n) \<Rightarrow> m < n
                   | _ \<Rightarrow> False))"

section \<open>JSON\<close>

text \<open>
  \<^verbatim>\<open>jsonFriendlyErrorReplacer(key, value)\<close> (logger.ts, lines 239-252): an error becomes
  a plain object of its enumerable properties followed by its name, message and stack.
\<close>

definition jsonFriendlyErrorReplacer :: "string \<Rightarrow> jsval \<Rightarrow> jsval" where
  "jsonFriendlyErrorReplacer key v =
     (if instanceof_Error v then
        JObj (set_prop ''stack'' (get_prop v ''stack'')
               (set_prop ''message'' (get_prop v ''message'')
                 (set_prop ''name'' (get_prop v ''name'')
                   (spread_into [] v))))
      else v)"

text \<open>
  \<^verbatim>\<open>JSON.stringify(v, replacer)\<close> calls the replacer on every property it visits, the
  root included (under the empty key), and goes on with what the replacer returned. A
  replacer that rebuilds only the value it is given, as the one above does, can be
  applied from the leaves up. The elements of an array are passed the empty key instead
  of their index; the replacer of this file does not look at the key.
\<close>

fun apply_replacer :: "(string \<Rightarrow> jsval \<Rightarrow> jsval) \<Rightarrow> string \<Rightarrow> jsval \<Rightarrow> jsval" where
  "apply_replacer r key (JArr xs) = r key (JArr (map (apply_replacer r []) xs))"
| "apply_replacer r key (JObj es) =
     r key (JObj (map (\<lambda>(k, v). (k, apply_replacer r k v)) es))"
| "apply_replacer r key (JError n m st ps) =
     r key (JError n m st (map (\<lambda>(k, v). (k, apply_replacer r k v)) ps))"
| "apply_replacer r key v = r key v"

text \<open>
  The value that \<^verbatim>\<open>JSON.stringify\<close> writes, which is the value \<^verbatim>\<open>JSON.parse\<close> reads
  back: \<open>None\<close> where \<^verbatim>\<open>stringify\<close> gives \<^verbatim>\<open>undefined\<close>. A property whose value is
  \<^verbatim>\<open>undefined\<close> is left out of an object and written \<^verbatim>\<open>null\<close> in an array; an error
  is written as the object of its enumerable properties; a BigInt makes
  \<^verbatim>\<open>JSON.stringify\<close> throw a TypeError.
\<close>

fun json_value :: "jsval \<Rightarrow> jsval option completion"
  and json_elements :: "jsval list \<Rightarrow> jsval list completion"
  and json_members :: "jsobj \<Rightarrow> jsobj completion" where
  "json_value JUndefined = Normal None"
| "json_value JNull = Normal (Some JNull)"
| "json_value (JBool b) = Normal (Some (JBool b))"
| "json_value (JNum n) = Normal (Some (JNum n))"
| "json_value (JBigInt n) = Throw (TypeError ''Do not know how to serialize a BigInt'')"
| "json_value (JStr s) = Normal (Some (JStr s))"
| "json_value (JArr xs) =
     (case json_elements xs of Throw e \<Rightarrow> Throw e | Normal ys \<Rightarrow> Normal (Some (JArr ys)))"
| "json_value (JObj es) =
     (case json_members es of Throw e \<Rightarrow> Throw e | Normal fs \<Rightarrow> Normal (Some (JObj fs)))"
| "json_value (JError n m st ps) =
     (case json_members ps of Throw e \<Rightarrow> Throw e | Normal fs \<Rightarrow> Normal (Some (JObj fs)))"
| "json_elements [] = Normal []"
| "json_elements (x # xs) =
     (case json_value x of
        Throw e \<Rightarrow> Throw e
      | Normal r \<Rightarrow>
          (case json_elements xs of
             Throw e \<Rightarrow> Throw e
           | Normal ys \<Rightarrow> Normal ((case r of None \<Rightarrow> JNull | Some y \<Rightarrow> y) # ys)))"
| "json_members [] = Normal []"
| "json_members (kv # es) =
     (case json_value (snd kv) of
        Throw e \<Rightarrow> Throw e
      | Normal r \<Rightarrow>
          (case json_members es of
             Throw e \<Rightarrow> Throw e
           | Normal fs \<Rightarrow> Normal (case r of None \<Rightarrow> fs | Some y \<Rightarrow> (fst kv, y) # fs)))"

text \<open>The JSON text of a value that \<open>json_value\<close> returned.\<close>

definition hex_digit :: "nat \<Rightarrow> char" where
  "hex_digit n = ''0123456789abcdef'' ! (n mod 16)"

definition json_quote_char :: "char \<Rightarrow> string" where
  "json_quote_char c =
     (let n = of_char c :: nat in
      if n = 34 then [CHR 0x5C, CHR 0x22]
      else if n = 92 then [CHR 0x5C, CHR 0x5C]
      else if n = 8 then [CHR 0x5C, CHR ''b'']
      else if n = 9 then [CHR 0x5C, CHR ''t'']
      else if n = 10 then [CHR 0x5C, CHR ''n'']
      else if n = 12 then [CHR 0x5C, CHR ''f'']
      else if n = 13 then [CHR 0x5C, CHR ''r'']
      else if n < 32 then [CHR 0x5C, CHR ''u'', CHR ''0'', CHR ''0'', hex_digit (n div 16), hex_digit n]
      else [c])"

definition json_quote :: "string \<Rightarrow> string" where
  "json_quote s = [CHR 0x22] @ concat (map json_quote_char s) @ [CHR 0x22]"

fun json_text :: "jsval \<Rightarrow> string" where
  "json_text (JBool b) = (if b then ''true'' else ''false'')"
| "json_text (JNum n) = show_int n"
| "json_text (JStr s) = json_quote s"
| "json_text (JArr xs) = ''['' @ intercalate '','' (map json_text xs) @ '']''"
| "json_text (JObj es) =
     ''{'' @ intercalate '','' (map (\<lambda>(k, v). json_quote k @ '':'' @ json_text v) es) @ ''}''"
| "json_text v = ''null''"

text \<open>\<^verbatim>\<open>JSON.stringify(v)\<close>: the text, \<open>None\<close> for \<^verbatim>\<open>undefined\<close>, or the TypeError.\<close>

definition JSON_stringify :: "jsval \<Rightarrow> string option completion" where
  "JSON_stringify v =
     (case json_value v of
        Throw e \<Rightarrow> Throw e
      | Normal r \<Rightarrow> Normal (map_option json_text r))"

text \<open>
  \<^verbatim>\<open>JSON.parse(JSON.stringify(v, replacer))\<close>. Parsing the text of a value gives the
  value back; \<^verbatim>\<open>JSON.parse(undefined)\<close> throws a SyntaxError.
\<close>

definition JSON_parse_stringify :: "(string \<Rightarrow> jsval \<Rightarrow> jsval) \<Rightarrow> jsval \<Rightarrow> jsval completion" where
  "JSON_parse_stringify r v =
     (case json_value (apply_replacer r [] v) of
        Throw e \<Rightarrow> Throw e
      | Normal None \<Rightarrow> Throw (SyntaxError ''Unexpected token u in JSON at position 0'')
      | Normal (Some x) \<Rightarrow> Normal x)"

section \<open>Log levels\<close>

text \<open>
  \<^verbatim>\<open>export enum LogLevel { debug = 0, info = 1, warn = 2, error = 3, off = 100 }\<close>
  (logger.ts, lines 19-25).
\<close>

datatype LogLevel = Debug | Info | Warn | Error | Off

fun ordinal :: "LogLevel \<Rightarrow> int" where
  "ordinal Debug = 0"
| "ordinal Info = 1"
| "ordinal Warn = 2"
| "ordinal Error = 3"
| "ordinal Off = 100"

fun level_name :: "LogLevel \<Rightarrow> string" where
  "level_name Debug = ''debug''"
| "level_name Info = ''info''"
| "level_name Warn = ''warn''"
| "level_name Error = ''error''"
| "level_name Off = ''off''"

text \<open>
  The logger indexes the enum by strings at run time (\<^verbatim>\<open>LogLevel[level]\<close>), so the
  object that TypeScript emits for a numeric enum matters: each member is stored twice,
  \<^verbatim>\<open>LogLevel[LogLevel["debug"] = 0] = "debug"\<close>, once from its name to its number and
  once from the number (as a property key, a string) back to its name.
\<close>

definition LogLevel_object :: jsobj where
  "LogLevel_object =
     concat (map (\<lambda>l. [(level_name l, JNum (ordinal l)), (show_int (ordinal l), JStr (level_name l))])
       [Debug, Info, Warn, Error, Off])"

text \<open>\<^verbatim>\<open>LogLevel[key]\<close>\<close>

definition LogLevel_at :: "string \<Rightarrow> jsval" where
  "LogLevel_at key = get_prop (JObj LogLevel_object) key"

section \<open>Events, the configurator and the environment\<close>

text \<open>\<^verbatim>\<open>interface PlatformInfo\<close> (lines 39-44); an absent property is \<open>JUndefined\<close>.\<close>

record PlatformInfo =
  environment :: jsval
  region :: jsval
  route :: jsval
  source :: jsval

text \<open>
  \<^verbatim>\<open>interface LogEvent\<close> (lines 8-17). \<open>ev_fields\<close> is the property \<^verbatim>\<open>fields\<close> and
  \<open>ev_time\<close> the property \<^verbatim>\<open>_time\<close>; \<open>request\<close> and \<open>netlify\<close> are
  \<open>JUndefined\<close> while absent.
\<close>

record LogEvent =
  level :: string
  message :: string
  ev_fields :: jsval
  ev_time :: string
  request :: jsval
  platform :: "PlatformInfo option"
  vercel :: "PlatformInfo option"
  netlify :: jsval

text \<open>
  The ingestion client of \<^verbatim>\<open>@axiomhq/js\<close> is an external library: a client is known
  by the options it was built from.
\<close>

datatype Client = Client jsobj

text \<open>
  Modelled from the spec: the configurator of \<^verbatim>\<open>./config\<close>, which is not among the
  sources. It holds the ingestion token and URL and the dataset name, says whether the
  runtime is a browser and whether the ingestion environment variables are set, and
  \<^verbatim>\<open>injectPlatformMetadata(event, source)\<close> "mutates the event in place with
  deployment-specific fields": here a function from the event and the source tag to the
  event it leaves behind.
\<close>

record Configurator =
  token :: jsval
  axiomUrl :: jsval
  dataset :: jsval
  isBrowser :: bool
  isEnvVarsSet :: bool
  injectPlatformMetadata :: "LogEvent \<Rightarrow> jsval \<Rightarrow> LogEvent"

text \<open>What a promise settles to, if it settles.\<close>

datatype promise = Fulfilled jsval | Rejected jsval | Pending

text \<open>
  Everything else the module reads from outside: the environment variable
  \<^verbatim>\<open>AXIOM_LOG_LEVEL\<close>, the package version, \<^verbatim>\<open>isNoPrettyPrint\<close> of
  \<^verbatim>\<open>./shared\<close>, the clock (\<^verbatim>\<open>new Date(Date.now()).toISOString()\<close>), and the
  behaviour of the external client: whether \<^verbatim>\<open>client.ingest(dataset, event)\<close> throws
  (and what), and how \<^verbatim>\<open>client.flush()\<close> completes.
\<close>

record Env =
  configurator :: Configurator
  AXIOM_LOG_LEVEL :: "string option"
  Version :: string
  isNoPrettyPrint :: bool
  now_iso :: string
  client_ingest :: "Client \<Rightarrow> jsval \<Rightarrow> LogEvent \<Rightarrow> jsval option"
  client_flush :: "Client \<Rightarrow> promise completion"

text \<open>\<^verbatim>\<open>const LOG_LEVEL = process.env.AXIOM_LOG_LEVEL || 'debug'\<close> (line 6)\<close>

definition LOG_LEVEL :: "Env \<Rightarrow> string" where
  "LOG_LEVEL env =
     (case AXIOM_LOG_LEVEL env of
        None \<Rightarrow> ''debug''
      | Some s \<Rightarrow> if s \<noteq> [] then s else ''debug'')"

text \<open>What a call does to the outside: writes to the console and calls of the client.\<close>

datatype effect =
    ConsoleLog "jsval list"
  | ConsoleWarn jsval
  | ClientIngest Client jsval LogEvent
  | ClientFlush Client

section \<open>The logger\<close>

text \<open>
  \<^verbatim>\<open>class Logger\<close> (lines 53-75). The children of a logger are logger objects that
  the logger shares with whoever holds them, so loggers live in a store (a list,
  addressed by position) and \<open>children\<close> holds addresses. \<open>clientOpts\<close> is the
  constructor's parameter property: \<open>None\<close> is \<^verbatim>\<open>undefined\<close>.
\<close>

record Logger =
  initConfig :: jsval
  clientOpts :: "jsobj option"
  children :: "nat list"
  client :: Client
  logLevel :: string
  config :: jsobj

type_synonym store = "Logger list"

text \<open>The initializer of the field \<^verbatim>\<open>config\<close> (lines 58-62).\<close>

definition default_config :: jsobj where
  "default_config = [(''source'', JStr ''frontend''), (''logLevel'', JNum (ordinal Debug))]"

text \<open>
  The constructor (lines 64-75). TypeScript stores the parameter properties before the
  body runs, so \<^verbatim>\<open>this.clientOpts\<close> stays \<^verbatim>\<open>undefined\<close> when the body replaces a
  missing \<^verbatim>\<open>clientOpts\<close>; an object that was passed is the one that gets the
  \<^verbatim>\<open>sdk\<close> property.
\<close>

definition new_Logger :: "Env \<Rightarrow> jsval \<Rightarrow> jsobj option \<Rightarrow> Logger" where
  "new_Logger env initConfig0 clientOpts0 =
     (let initCfg = (if initConfig0 = JUndefined then JObj [] else initConfig0);
          cfg = spread_into (spread_into [] (JObj default_config)) initCfg;
          ll = get_prop (JObj cfg) ''logLevel'';
          lvl = (if truthy ll then toString_js ll
                 else if LOG_LEVEL env \<noteq> [] then LOG_LEVEL env else ''debug'');
          opts = (case clientOpts0 of
                    None \<Rightarrow> [(''token'', token (configurator env)),
                             (''url'', axiomUrl (configurator env))]
                  | Some given \<Rightarrow> given);
          opts' = set_prop ''sdk'' (JStr (''next-axiom/v'' @ Version env)) opts
      in \<lparr> initConfig = initCfg,
           clientOpts = map_option (\<lambda>given. opts') clientOpts0,
           children = [],
           client = Client opts',
           logLevel = lvl,
           config = cfg \<rparr>)"

text \<open>
  \<^verbatim>\<open>with\<close> (lines 90-95), on the logger at address \<open>p\<close>: the child is allocated at
  the end of the store and its address is pushed onto the children of \<open>p\<close>. The result
  is the child's address and the store; \<open>None\<close> when \<open>p\<close> is not a logger.
\<close>

definition Logger_with :: "Env \<Rightarrow> store \<Rightarrow> nat \<Rightarrow> jsval \<Rightarrow> (nat \<times> store) option" where
  "Logger_with env s p cfg =
     (if p < length s then
        (let this = s ! p;
             newConfig = spread_into (spread_into [] (JObj (config this))) cfg;
             child = new_Logger env (JObj newConfig) (clientOpts this);
             c = length s
         in Some (c, (s @ [child])[p := this\<lparr>children := children this @ [c]\<rparr>]))
      else None)"

text \<open>\<^verbatim>\<open>withArgs\<close> (lines 97-102)\<close>

definition withArgs :: "Env \<Rightarrow> store \<Rightarrow> nat \<Rightarrow> jsval \<Rightarrow> (nat \<times> store) option" where
  "withArgs env s p args =
     (if p < length s then
        (let this = s ! p;
             merged = spread_into (spread_into [] (get_prop (JObj (config this)) ''args'')) args;
             cfg = set_prop ''args'' (JObj merged) (spread_into [] (JObj (config this)));
             child = new_Logger env (JObj cfg) (clientOpts this);
             c = length s
         in Some (c, (s @ [child])[p := this\<lparr>children := children this @ [c]\<rparr>]))
      else None)"

text \<open>\<^verbatim>\<open>withRequest\<close> (lines 104-106): the new logger is returned and nothing else.\<close>

definition withRequest :: "Env \<Rightarrow> store \<Rightarrow> nat \<Rightarrow> jsval \<Rightarrow> (nat \<times> store) option" where
  "withRequest env s p req =
     (if p < length s then
        (let this = s ! p;
             merged = spread_into (spread_into [] (get_prop (JObj (config this)) ''req'')) req;
             cfg = set_prop ''req'' (JObj merged) (spread_into [] (JObj (config this)))
         in Some (length s, s @ [new_Logger env (JObj cfg) (clientOpts this)]))
      else None)"

section \<open>Building and delivering an event\<close>

text \<open>
  The event that \<^verbatim>\<open>_log\<close> builds (lines 112-127) once the call has passed the level
  filter: the configured \<^verbatim>\<open>args\<close> as the fields, then the three-way inspection of
  the call's argument. Only the middle branch can throw, in \<^verbatim>\<open>JSON.stringify\<close>.
\<close>

definition build_event :: "Env \<Rightarrow> Logger \<Rightarrow> string \<Rightarrow> string \<Rightarrow> jsval \<Rightarrow> LogEvent completion" where
  "build_event env this lvl msg args =
     (let configured = get_prop (JObj (config this)) ''args'';
          logEvent = \<lparr> level = lvl,
                       message = msg,
                       ev_fields = (if truthy configured then configured else JObj []),
                       ev_time = now_iso env,
                       request = JUndefined,
                       platform = None,
                       vercel = None,
                       netlify = JUndefined \<rparr>
      in if instanceof_Error args then
           Normal (logEvent\<lparr>ev_fields :=
             JObj (set_prop ''name'' (get_prop args ''name'')
                    (set_prop ''stack'' (get_prop args ''stack'')
                      (set_prop ''message'' (get_prop args ''message'')
                        (spread_into [] (ev_fields logEvent)))))\<rparr>)
         else if js_typeof args = ''object'' \<and> args \<noteq> JNull \<and> length (Object_keys args) > 0 then
           (case JSON_parse_stringify jsonFriendlyErrorReplacer args of
              Throw e \<Rightarrow> Throw e
            | Normal parsedArgs \<Rightarrow>
                Normal (logEvent\<lparr>ev_fields :=
                  JObj (spread_into (spread_into [] (ev_fields logEvent)) parsedArgs)\<rparr>))
         else if truthy args \<and> truthy (get_prop args ''length'') then
           Normal (logEvent\<lparr>ev_fields :=
             JObj (set_prop ''args'' args (spread_into [] (ev_fields logEvent)))\<rparr>)
         else Normal logEvent)"

text \<open>\<^verbatim>\<open>levelColors\<close> (lines 181-198): the terminal and the browser colour of a level.\<close>

definition levelColors :: "string \<Rightarrow> (string \<times> string) option" where
  "levelColors = map_of
     [(''info'', (''32'', ''lightgreen'')),
      (''debug'', (''36'', ''lightblue'')),
      (''warn'', (''33'', ''yellow'')),
      (''error'', (''31'', ''red''))]"

text \<open>
  \<^verbatim>\<open>prettyPrint\<close> (lines 200-237). \<^verbatim>\<open>Object.keys\<close> throws on \<^verbatim>\<open>null\<close> and
  \<^verbatim>\<open>undefined\<close>, \<^verbatim>\<open>JSON.stringify\<close> may throw, and reading the colour of a level
  that has none throws; otherwise there is one \<^verbatim>\<open>console.log\<close>.
\<close>

definition prettyPrint :: "Env \<Rightarrow> LogEvent \<Rightarrow> effect list \<times> unit completion" where
  "prettyPrint env ev =
     (if ev_fields ev = JUndefined \<or> ev_fields ev = JNull then
        ([], Throw (TypeError ''Cannot convert undefined or null to object''))
      else
        (let hasFields = (length (Object_keys (ev_fields ev)) > 0) in
         if isNoPrettyPrint env then
           (let msg = level ev @ '' - '' @ message ev in
            if hasFields then
              (case JSON_stringify (ev_fields ev) of
                 Throw e \<Rightarrow> ([], Throw e)
               | Normal t \<Rightarrow>
                   ([ConsoleLog [JStr (msg @ '' '' @ (case t of None \<Rightarrow> ''undefined'' | Some x \<Rightarrow> x))]],
                    Normal ()))
            else ([ConsoleLog [JStr msg]], Normal ()))
         else
           (case levelColors (level ev) of
              None \<Rightarrow> ([], Throw (TypeError ''Cannot read properties of undefined''))
            | Some colors \<Rightarrow>
                (let browser = isBrowser (configurator env);
                     msgString0 = (if browser then ''%c%s - %s''
                                   else [CHR 0x1B] @ ''['' @ fst colors @ ''m%s'' @ [CHR 0x1B] @ ''[0m - %s'');
                     args0 = (if browser then [JStr (''color: '' @ snd colors @ '';'')] else [])
                             @ [JStr (level ev), JStr (message ev)];
                     msgString1 = (if hasFields then msgString0 @ '' %o'' else msgString0);
                     args1 = (if hasFields then args0 @ [ev_fields ev] else args0);
                     msgString2 = (if truthy (request ev) then msgString1 @ '' %o'' else msgString1);
                     args2 = (if truthy (request ev) then args1 @ [request ev] else args1)
                 in ([ConsoleLog (JStr msgString2 # args2)], Normal ())))))"

text \<open>
  \<^verbatim>\<open>ingest\<close> (lines 153-168): the console when the environment variables are not
  set, else the client, whose exception is caught and warned.
\<close>

definition ingest :: "Env \<Rightarrow> Logger \<Rightarrow> LogEvent \<Rightarrow> effect list \<times> unit completion" where
  "ingest env this ev =
     (if \<not> isEnvVarsSet (configurator env) then prettyPrint env ev
      else
        (let ds = (if truthy (dataset (configurator env)) then dataset (configurator env)
                   else JStr ''vercel'')
         in case client_ingest env (client this) ds ev of
              None \<Rightarrow> ([ClientIngest (client this) ds ev], Normal ())
            | Some err \<Rightarrow> ([ClientIngest (client this) ds ev, ConsoleWarn err], Normal ())))"

text \<open>The level filter of \<^verbatim>\<open>_log\<close> (line 109): \<^verbatim>\<open>LogLevel[level] < LogLevel[this.logLevel]\<close>.\<close>

definition filtered :: "Logger \<Rightarrow> string \<Rightarrow> bool" where
  "filtered this lvl = js_lt (LogLevel_at lvl) (LogLevel_at (logLevel this))"

text \<open>
  \<^verbatim>\<open>if (this.config.req != null)\<close> and what follows (lines 131-138): the request
  context goes onto the event, and its path becomes the route of the platform section
  that is there.
\<close>

definition attach_request :: "Logger \<Rightarrow> LogEvent \<Rightarrow> LogEvent" where
  "attach_request this logEvent =
     (let req = get_prop (JObj (config this)) ''req'' in
      if req \<noteq> JNull \<and> req \<noteq> JUndefined then
        (let ev = logEvent\<lparr>request := req\<rparr> in
         case platform ev of
           Some info \<Rightarrow> ev\<lparr>platform := Some (info\<lparr>route := get_prop req ''path''\<rparr>)\<rparr>
         | None \<Rightarrow>
             (case vercel ev of
                Some info \<Rightarrow> ev\<lparr>vercel := Some (info\<lparr>route := get_prop req ''path''\<rparr>)\<rparr>
              | None \<Rightarrow> ev))
      else logEvent)"

text \<open>\<^verbatim>\<open>_log\<close> (lines 108-141); an argument left out is \<^verbatim>\<open>{}\<close>.\<close>

definition Logger_log :: "Env \<Rightarrow> Logger \<Rightarrow> string \<Rightarrow> string \<Rightarrow> jsval \<Rightarrow> effect list \<times> unit completion" where
  "Logger_log env this lvl msg args0 =
     (let args = (if args0 = JUndefined then JObj [] else args0) in
      if filtered this lvl then ([], Normal ())
      else
        (case build_event env this lvl msg args of
           Throw e \<Rightarrow> ([], Throw e)
         | Normal logEvent \<Rightarrow>
             ingest env this
               (attach_request this
                 (injectPlatformMetadata (configurator env) logEvent
                   (get_prop (JObj (config this)) ''source'')))))"

text \<open>The level methods (lines 77-88).\<close>

definition debug :: "Env \<Rightarrow> Logger \<Rightarrow> string \<Rightarrow> jsval \<Rightarrow> effect list \<times> unit completion" where
  "debug env this msg args =
     Logger_log env this ''debug'' msg (if args = JUndefined then JObj [] else args)"

definition info :: "Env \<Rightarrow> Logger \<Rightarrow> string \<Rightarrow> jsval \<Rightarrow> effect list \<times> unit completion" where
  "info env this msg args =
     Logger_log env this ''info'' msg (if args = JUndefined then JObj [] else args)"

definition warn :: "Env \<Rightarrow> Logger \<Rightarrow> string \<Rightarrow> jsval \<Rightarrow> effect list \<times> unit completion" where
  "warn env this msg args =
     Logger_log env this ''warn'' msg (if args = JUndefined then JObj [] else args)"

definition error :: "Env \<Rightarrow> Logger \<Rightarrow> string \<Rightarrow> jsval \<Rightarrow> effect list \<times> unit completion" where
  "error env this msg args =
     Logger_log env this ''error'' msg (if args = JUndefined then JObj [] else args)"

text \<open>The level method of a level; \<^verbatim>\<open>off\<close> has none.\<close>

fun level_method :: "LogLevel \<Rightarrow> (Env \<Rightarrow> Logger \<Rightarrow> string \<Rightarrow> jsval \<Rightarrow> effect list \<times> unit completion) option" where
  "level_method Debug = Some debug"
| "level_method Info = Some info"
| "level_method Warn = Some warn"
| "level_method Error = Some error"
| "level_method Off = None"

text \<open>
  \<^verbatim>\<open>flush\<close> (lines 170-178), an async function: the promise it returns. The
  \<^verbatim>\<open>try\<close> covers the call of \<^verbatim>\<open>client.flush()\<close> and the \<^verbatim>\<open>await\<close> of what it
  returned, so an exception and a rejection end in the same \<^verbatim>\<open>catch\<close>; a promise
  that never settles leaves \<^verbatim>\<open>flush\<close> pending.
\<close>

definition flush :: "Env \<Rightarrow> Logger \<Rightarrow> effect list \<times> promise" where
  "flush env this =
     (case client_flush env (client this) of
        Throw err \<Rightarrow> ([ClientFlush (client this), ConsoleWarn err], Fulfilled JUndefined)
      | Normal (Rejected err) \<Rightarrow> ([ClientFlush (client this), ConsoleWarn err], Fulfilled JUndefined)
      | Normal (Fulfilled v) \<Rightarrow> ([ClientFlush (client this)], Fulfilled v)
      | Normal Pending \<Rightarrow> ([ClientFlush (client this)], Pending))"

section \<open>Invariants and example environments\<close>

text \<open>
  What the constructor establishes of every logger: the keys of its configuration are
  distinct (it is an object) and the two default keys are among them. A store is well
  formed when its loggers are and every child is a logger of the store.
\<close>

definition wf_logger :: "Logger \<Rightarrow> bool" where
  "wf_logger l =
     (distinct (map fst (config l)) \<and> ''source'' \<in> fst ` set (config l)
        \<and> ''logLevel'' \<in> fst ` set (config l))"

definition wf_store :: "store \<Rightarrow> bool" where
  "wf_store s = (\<forall>l \<in> set s. wf_logger l \<and> (\<forall>c \<in> set (children l). c < length s))"


text \<open>
  The values of JSON itself: \<^verbatim>\<open>null\<close>, booleans, numbers, strings, and arrays and
  objects of such values. A JSON round trip gives them back as they are.
\<close>

fun json_clean :: "jsval \<Rightarrow> bool" where
  "json_clean JNull = True"
| "json_clean (JBool b) = True"
| "json_clean (JNum n) = True"
| "json_clean (JStr s) = True"
| "json_clean (JArr xs) = (\<forall>x \<in> set xs. json_clean x)"
| "json_clean (JObj es) = (\<forall>e \<in> set es. json_clean (snd e))"
| "json_clean v = False"

text \<open>
  The fields an event starts from, \<^verbatim>\<open>this.config.args || {}\<close>, and the event of
  lines 112-117 before the argument is looked at.
\<close>

definition configured_fields :: "Logger \<Rightarrow> jsval" where
  "configured_fields this =
     (let configured = get_prop (JObj (config this)) ''args''
      in if truthy configured then configured else JObj [])"

definition base_event :: "Env \<Rightarrow> Logger \<Rightarrow> string \<Rightarrow> string \<Rightarrow> LogEvent" where
  "base_event env this lvl msg =
     \<lparr> level = lvl, message = msg, ev_fields = configured_fields this, ev_time = now_iso env,
       request = JUndefined, platform = None, vercel = None, netlify = JUndefined \<rparr>"

text \<open>Whether an effect is a call of the ingestion client.\<close>

fun is_client_call :: "effect \<Rightarrow> bool" where
  "is_client_call (ClientIngest c ds ev) = True"
| "is_client_call (ClientFlush c) = True"
| "is_client_call e = False"

text \<open>
  An environment to run the model in: whether the ingestion variables are set, what
  \<^verbatim>\<open>AXIOM_LOG_LEVEL\<close> holds, whether pretty printing is off, what the client's
  \<^verbatim>\<open>ingest\<close> throws (if anything) and how its \<^verbatim>\<open>flush\<close> completes. The platform
  metadata is a \<^verbatim>\<open>platform\<close> section that carries the source tag.
\<close>

definition example_env :: "bool \<Rightarrow> string option \<Rightarrow> bool \<Rightarrow> jsval option \<Rightarrow> promise completion \<Rightarrow> Env" where
  "example_env envVarsSet logLevelVar noPretty ingestError flushResult =
     \<lparr> configurator =
         \<lparr> token = (if envVarsSet then JStr ''xaat-0000'' else JUndefined),
           axiomUrl = (if envVarsSet then JStr ''https://api.axiom.co'' else JUndefined),
           dataset = (if envVarsSet then JStr ''logs'' else JUndefined),
           isBrowser = False,
           isEnvVarsSet = envVarsSet,
           injectPlatformMetadata =
             (\<lambda>ev src. ev\<lparr>platform :=
                Some \<lparr> environment = JStr ''dev'', region = JUndefined,
                       route = JUndefined, source = src \<rparr>\<rparr>) \<rparr>,
       AXIOM_LOG_LEVEL = logLevelVar,
       Version = ''0.1.3'',
       isNoPrettyPrint = noPretty,
       now_iso = ''2024-01-01T00:00:00.000Z'',
       client_ingest = (\<lambda>c ds ev. ingestError),
       client_flush = (\<lambda>c. flushResult) \<rparr>"

text \<open>Development: nothing set, pretty printing on.\<close>

definition dev_env :: Env where
  "dev_env = example_env False None False None (Normal (Fulfilled JUndefined))"

text \<open>A logger made with no arguments in the development environment.\<close>

definition root_logger :: Logger where
  "root_logger = new_Logger dev_env JUndefined None"


text \<open>A production environment whose client accepts every event, and a logger in it.\<close>

definition prod_env :: Env where
  "prod_env = example_env True None False None (Normal (Fulfilled JUndefined))"

definition prod_logger :: Logger where
  "prod_logger = new_Logger prod_env JUndefined None"

section \<open>Objects: assignment and spread\<close>

lemma map_of_set_prop: "map_of (set_prop k v es) = (map_of es)(k \<mapsto> v)"
  by (induction es) auto

lemma keys_set_prop: "fst ` set (set_prop k v es) = insert k (fst ` set es)"
  by (induction k v es rule: set_prop.induct) (simp_all add: insert_commute)

lemma in_set_prop: "(a, b) \<in> set (set_prop k v es) \<Longrightarrow> b = v \<or> (a, b) \<in> set es"
  by (induction es) (auto split: if_splits)

lemma values_set_prop: "snd ` set (set_prop k v es) \<subseteq> insert v (snd ` set es)"
  using in_set_prop by fastforce

lemma distinct_set_prop: "distinct (map fst es) \<Longrightarrow> distinct (map fst (set_prop k v es))"
  by (induction es) (auto simp: keys_set_prop)

lemma set_prop_fresh: "k \<notin> fst ` set es \<Longrightarrow> set_prop k v es = es @ [(k, v)]"
  by (induction es) auto

lemma keys_assign:
  "fst ` set (fold (\<lambda>(k, x). set_prop k x) es obj) = fst ` set obj \<union> fst ` set es"
proof (induction es arbitrary: obj)
  case Nil
  then show ?case by simp
next
  case (Cons e es)
  obtain k x where e: "e = (k, x)" by (cases e)
  show ?case using Cons.IH [of "set_prop k x obj"] by (simp add: e keys_set_prop)
qed

lemma distinct_assign:
  "distinct (map fst obj) \<Longrightarrow> distinct (map fst (fold (\<lambda>(k, x). set_prop k x) es obj))"
proof (induction es arbitrary: obj)
  case Nil
  then show ?case by simp
next
  case (Cons e es)
  obtain k x where e: "e = (k, x)" by (cases e)
  show ?case using Cons.IH [of "set_prop k x obj"] Cons.prems
    by (simp add: e distinct_set_prop)
qed

lemma values_assign:
  "snd ` set (fold (\<lambda>(k, x). set_prop k x) es obj) \<subseteq> snd ` set obj \<union> snd ` set es"
proof (induction es arbitrary: obj)
  case Nil
  then show ?case by simp
next
  case (Cons e es)
  obtain k x where e: "e = (k, x)" by (cases e)
  have "snd ` set (fold (\<lambda>(k, x). set_prop k x) es (set_prop k x obj))
          \<subseteq> snd ` set (set_prop k x obj) \<union> snd ` set es"
    by (rule Cons.IH)
  also have "\<dots> \<subseteq> insert x (snd ` set obj) \<union> snd ` set es"
    using values_set_prop [of k x obj] by blast
  finally show ?case by (simp add: e)
qed

lemma map_of_assign:
  "distinct (map fst es) \<Longrightarrow>
     map_of (fold (\<lambda>(k, x). set_prop k x) es obj) = map_of obj ++ map_of es"
proof (induction es arbitrary: obj)
  case Nil
  then show ?case by simp
next
  case (Cons e es)
  obtain k x where e: "e = (k, x)" by (cases e)
  from Cons.prems have fresh: "map_of es k = None" and d: "distinct (map fst es)"
    by (auto simp: e map_of_eq_None_iff)
  have "map_of (fold (\<lambda>(k, x). set_prop k x) (e # es) obj)
          = map_of (set_prop k x obj) ++ map_of es"
    using Cons.IH [OF d, of "set_prop k x obj"] by (simp add: e)
  also have "\<dots> = map_of obj ++ map_of (e # es)"
  proof (rule ext)
    fix j
    show "(map_of (set_prop k x obj) ++ map_of es) j = (map_of obj ++ map_of (e # es)) j"
      using fresh
      by (cases "j = k") (simp_all add: e map_of_set_prop map_add_def split: option.splits)
  qed
  finally show ?case .
qed

lemma assign_fresh:
  "distinct (map fst (obj @ es)) \<Longrightarrow> fold (\<lambda>(k, x). set_prop k x) es obj = obj @ es"
proof (induction es arbitrary: obj)
  case Nil
  then show ?case by simp
next
  case (Cons e es)
  obtain k x where e: "e = (k, x)" by (cases e)
  from Cons.prems have "k \<notin> fst ` set obj" by (auto simp: e)
  then have "set_prop k x obj = obj @ [(k, x)]" by (rule set_prop_fresh)
  moreover from Cons.prems have "distinct (map fst ((obj @ [(k, x)]) @ es))" by (auto simp: e)
  ultimately show ?case using Cons.IH [of "obj @ [(k, x)]"] by (simp add: e)
qed

lemma keys_spread_into:
  "fst ` set (spread_into obj v) = fst ` set obj \<union> set (Object_keys v)"
  by (simp add: spread_into_def keys_assign Object_keys_def)

lemma distinct_spread_into:
  "distinct (map fst obj) \<Longrightarrow> distinct (map fst (spread_into obj v))"
  by (simp add: spread_into_def distinct_assign)

lemma values_spread_into:
  "snd ` set (spread_into obj v) \<subseteq> snd ` set obj \<union> snd ` set (own_entries v)"
  by (simp add: spread_into_def values_assign)

lemma map_of_spread_into:
  "distinct (Object_keys v) \<Longrightarrow> map_of (spread_into obj v) = map_of obj ++ map_of (own_entries v)"
  by (simp add: spread_into_def map_of_assign Object_keys_def)

lemma spread_into_empty: "distinct (map fst es) \<Longrightarrow> spread_into [] (JObj es) = es"
  by (simp add: spread_into_def assign_fresh)

section \<open>What the constructor establishes\<close>

lemma config_new_Logger:
  "config (new_Logger env ic co) =
     spread_into default_config (if ic = JUndefined then JObj [] else ic)"
  by (simp add: new_Logger_def Let_def spread_into_empty default_config_def)

lemma wf_new_Logger: "wf_logger (new_Logger env ic co)"
proof -
  have "distinct (map fst default_config)"
    and "''source'' \<in> fst ` set default_config"
    and "''logLevel'' \<in> fst ` set default_config"
    by (simp_all add: default_config_def)
  then show ?thesis
    unfolding wf_logger_def config_new_Logger
    by (simp add: distinct_spread_into keys_spread_into)
qed

lemma map_add_absorb: "dom m \<subseteq> dom n \<Longrightarrow> m ++ n = n"
  by (rule ext) (auto simp: map_add_def split: option.splits)

lemma map_of_config_child:
  assumes "distinct (map fst nc)" and "''source'' \<in> fst ` set nc" and "''logLevel'' \<in> fst ` set nc"
  shows "map_of (config (new_Logger env (JObj nc) co)) = map_of nc"
proof -
  have "dom (map_of default_config) \<subseteq> dom (map_of nc)"
    using assms(2,3) by (simp add: default_config_def dom_map_of_conv_image_fst)
  moreover have "map_of (config (new_Logger env (JObj nc) co)) = map_of default_config ++ map_of nc"
    using assms(1) by (simp add: config_new_Logger map_of_spread_into Object_keys_def)
  ultimately show ?thesis by (simp add: map_add_absorb)
qed

lemma children_new_Logger: "children (new_Logger env ic co) = []"
  by (simp add: new_Logger_def Let_def)

lemma map_of_config_set_key:
  assumes "wf_logger l"
  shows "map_of (config (new_Logger env (JObj (set_prop k v (spread_into [] (JObj (config l))))) co))
           = (map_of (config l))(k \<mapsto> v)"
proof -
  from assms have d: "distinct (map fst (config l))"
    and src: "''source'' \<in> fst ` set (config l)"
    and lvl: "''logLevel'' \<in> fst ` set (config l)"
    by (simp_all add: wf_logger_def)
  have "map_of (config (new_Logger env (JObj (set_prop k v (config l))) co))
          = map_of (set_prop k v (config l))"
    using d src lvl by (intro map_of_config_child) (simp_all add: distinct_set_prop keys_set_prop)
  then show ?thesis using d by (simp add: spread_into_empty map_of_set_prop)
qed

lemma distinct_from_empty: "distinct (map fst (spread_into [] v))"
  by (simp add: distinct_spread_into)

lemma get_prop_config_key:
  "map_of (config l) k = Some v \<Longrightarrow> get_prop (JObj (config l)) k = v"
  by (simp add: lookup_def)

lemma wf_store_nth: "wf_store s \<Longrightarrow> p < length s \<Longrightarrow> wf_logger (s ! p)"
  by (simp add: wf_store_def)

lemma wf_store_children: "wf_store s \<Longrightarrow> l \<in> set s \<Longrightarrow> length s \<notin> set (children l)"
  by (auto simp: wf_store_def)

section \<open>The example environments\<close>

lemma example_env_sel:
  "isEnvVarsSet (configurator (example_env a b c d e)) = a"
  "isBrowser (configurator (example_env a b c d e)) = False"
  "dataset (configurator (example_env a b c d e)) = (if a then JStr ''logs'' else JUndefined)"
  "token (configurator (example_env a b c d e)) = (if a then JStr ''xaat-0000'' else JUndefined)"
  "axiomUrl (configurator (example_env a b c d e))
     = (if a then JStr ''https://api.axiom.co'' else JUndefined)"
  "injectPlatformMetadata (configurator (example_env a b c d e)) ev src
     = ev\<lparr>platform := Some \<lparr> environment = JStr ''dev'', region = JUndefined,
                                 route = JUndefined, source = src \<rparr>\<rparr>"
  "AXIOM_LOG_LEVEL (example_env a b c d e) = b"
  "Version (example_env a b c d e) = ''0.1.3''"
  "isNoPrettyPrint (example_env a b c d e) = c"
  "now_iso (example_env a b c d e) = ''2024-01-01T00:00:00.000Z''"
  "client_ingest (example_env a b c d e) cl ds ev = d"
  "client_flush (example_env a b c d e) cl = e"
  by (simp_all add: example_env_def)

lemmas dev_env_sel =
  example_env_sel [of False None False None "Normal (Fulfilled JUndefined)", folded dev_env_def]

lemmas prod_env_sel =
  example_env_sel [of True None False None "Normal (Fulfilled JUndefined)", folded prod_env_def]

section \<open>The level filter\<close>

lemma LogLevel_object_eq:
  "LogLevel_object =
     [(''debug'', JNum 0), (''0'', JStr ''debug''), (''info'', JNum 1), (''1'', JStr ''info''),
      (''warn'', JNum 2), (''2'', JStr ''warn''), (''error'', JNum 3), (''3'', JStr ''error''),
      (''off'', JNum 100), (''100'', JStr ''off'')]"
  by (simp add: LogLevel_object_def show_int_def show_nat.simps digit_char_def)

lemma LogLevel_at_name: "LogLevel_at (level_name l) = JNum (ordinal l)"
  by (cases l) (simp_all add: LogLevel_at_def LogLevel_object_eq lookup_def)

lemma show_int_ordinal:
  "show_int (ordinal l) = (case l of Debug \<Rightarrow> ''0'' | Info \<Rightarrow> ''1'' | Warn \<Rightarrow> ''2'' | Error \<Rightarrow> ''3'' | Off \<Rightarrow> ''100'')"
  by (cases l) (simp_all add: show_int_def show_nat.simps digit_char_def)

lemma LogLevel_at_ordinal: "LogLevel_at (show_int (ordinal l)) = JStr (level_name l)"
  by (cases l)
     (simp_all add: show_int_def show_nat.simps digit_char_def LogLevel_at_def LogLevel_object_eq
        lookup_def)

lemma level_name_not_a_number: "string_to_number (level_name l) = None"
  by (cases l) (simp_all add: string_to_number_def)

lemma js_lt_numbers: "js_lt (JNum a) (JNum b) = (a < b)"
  by (simp add: js_lt_def)

lemma js_lt_number_name: "js_lt (JNum a) (JStr (level_name l)) = False"
  by (simp add: js_lt_def level_name_not_a_number)

lemma filtered_by_name:
  "logLevel this = level_name L2 \<Longrightarrow> filtered this (level_name L1) = (ordinal L1 < ordinal L2)"
  by (simp add: filtered_def LogLevel_at_name js_lt_numbers)

lemma not_filtered_by_number:
  "logLevel this = show_int (ordinal L2) \<Longrightarrow> \<not> filtered this (level_name L1)"
  by (simp add: filtered_def LogLevel_at_name LogLevel_at_ordinal js_lt_number_name)

lemma logLevel_from_config:
  "L2 \<noteq> Debug \<Longrightarrow>
     logLevel (new_Logger env (JObj [(''logLevel'', JNum (ordinal L2))]) co) = show_int (ordinal L2)"
  by (cases L2) (simp_all add: new_Logger_def Let_def spread_into_def default_config_def lookup_def)

lemma logLevel_from_env: "logLevel (new_Logger env JUndefined co) = LOG_LEVEL env"
  by (simp add: new_Logger_def Let_def spread_into_def default_config_def lookup_def LOG_LEVEL_def
      split: option.splits)

lemma level_method_name:
  "level_method L = Some m \<Longrightarrow>
     m env this msg args = Logger_log env this (level_name L) msg (if args = JUndefined then JObj [] else args)"
  by (cases L) (auto simp: debug_def info_def warn_def error_def)

text \<open>The sibling path: a level that comes from the environment variable does filter.\<close>

lemma env_level_filters:
  assumes "AXIOM_LOG_LEVEL env = Some (level_name L2)" and "ordinal L1 < ordinal L2"
    and "level_method L1 = Some m"
  shows "m env (new_Logger env JUndefined co) msg args = ([], Normal ())"
proof -
  have "level_name L2 \<noteq> []" by (cases L2) simp_all
  with assms(1) have "logLevel (new_Logger env JUndefined co) = level_name L2"
    by (simp add: logLevel_from_env LOG_LEVEL_def)
  with assms(2) have "filtered (new_Logger env JUndefined co) (level_name L1)"
    by (simp add: filtered_by_name)
  then show ?thesis
    by (simp add: level_method_name [OF assms(3)] Logger_log_def)
qed

text \<open>
  C1. A logger whose configured minimum level is \<open>L2\<close> should do nothing when the
  method of a level below \<open>L2\<close> is called. For a level that comes from
  \<^verbatim>\<open>AXIOM_LOG_LEVEL\<close> this holds (\<open>env_level_filters\<close>). For a level given as
  \<^verbatim>\<open>logLevel\<close> in the configuration it fails: the constructor keeps the number of the
  level as a string (\<^verbatim>\<open>"3"\<close> for \<^verbatim>\<open>LogLevel.error\<close>), the enum maps that string back
  to the name of the level, and \<^verbatim>\<open>LogLevel[level] < "error"\<close> compares a number with
  NaN. So whatever level other than \<^verbatim>\<open>debug\<close> is configured, no call is filtered.
\<close>

theorem configured_level_does_not_filter:
  assumes "L2 \<noteq> Debug"
  shows "logLevel (new_Logger env (JObj [(''logLevel'', JNum (ordinal L2))]) co) = show_int (ordinal L2)
       \<and> \<not> filtered (new_Logger env (JObj [(''logLevel'', JNum (ordinal L2))]) co) (level_name L1)"
  using assms by (simp add: logLevel_from_config not_filtered_by_number)

theorem configured_level_does_not_filter_witness:
  "Error \<noteq> Debug
   \<and> logLevel (new_Logger dev_env (JObj [(''logLevel'', JNum 3)]) None) = ''3''
   \<and> \<not> filtered (new_Logger dev_env (JObj [(''logLevel'', JNum 3)]) None) ''debug''
   \<and> debug dev_env (new_Logger dev_env (JObj [(''logLevel'', JNum 3)]) None) ''x'' JUndefined
       = ([ConsoleLog [JStr ([CHR 0x1B] @ ''[36m%s'' @ [CHR 0x1B] @ ''[0m - %s''),
             JStr ''debug'', JStr ''x'']], Normal ())"
proof -
  have h: "Error \<noteq> Debug" by simp
  note t = configured_level_does_not_filter [OF h, of dev_env None Debug, simplified show_int_ordinal]
  have nf: "\<not> filtered (new_Logger dev_env (JObj [(''logLevel'', JNum 3)]) None) ''debug''"
    using t by simp
  have cfg: "config (new_Logger dev_env (JObj [(''logLevel'', JNum 3)]) None)
               = [(''source'', JStr ''frontend''), (''logLevel'', JNum 3)]"
    by (simp add: config_new_Logger spread_into_def default_config_def)
  have "debug dev_env (new_Logger dev_env (JObj [(''logLevel'', JNum 3)]) None) ''x'' JUndefined
       = ([ConsoleLog [JStr ([CHR 0x1B] @ ''[36m%s'' @ [CHR 0x1B] @ ''[0m - %s''),
             JStr ''debug'', JStr ''x'']], Normal ())"
    using nf
    by (simp add: debug_def Logger_log_def build_event_def cfg lookup_def Object_keys_def Let_def
        ingest_def prettyPrint_def attach_request_def levelColors_def dev_env_sel)
  with t show ?thesis by simp
qed

section \<open>JSON round trips\<close>

lemma json_value_clean:
  "json_clean v \<Longrightarrow> json_value v = Normal (Some v)"
  "(\<forall>x \<in> set xs. json_clean x) \<Longrightarrow> json_elements xs = Normal xs"
  "(\<forall>e \<in> set es. json_clean (snd e)) \<Longrightarrow> json_members es = Normal es"
  by (induction v and xs and es rule: json_value_json_elements_json_members.induct) auto



lemma apply_replacer_clean:
  "json_clean v \<Longrightarrow> apply_replacer jsonFriendlyErrorReplacer k v = v"
proof (induction "jsonFriendlyErrorReplacer" k v rule: apply_replacer.induct)
  case (1 key xs)
  then have "map (apply_replacer jsonFriendlyErrorReplacer []) xs = xs"
    by (intro map_idI) simp
  then show ?case by (simp add: jsonFriendlyErrorReplacer_def)
next
  case (2 key es)
  then have "map (\<lambda>(k, v). (k, apply_replacer jsonFriendlyErrorReplacer k v)) es = es"
    by (intro map_idI) (auto split: prod.splits)
  then show ?case by (simp add: jsonFriendlyErrorReplacer_def)
qed (simp_all add: jsonFriendlyErrorReplacer_def)





lemma JSON_parse_stringify_clean:
  "json_clean v \<Longrightarrow> JSON_parse_stringify jsonFriendlyErrorReplacer v = Normal v"
  by (simp add: JSON_parse_stringify_def apply_replacer_clean json_value_clean(1))

section \<open>The event that a call builds\<close>

lemma build_event_cases:
  "build_event env this lvl msg args =
     (if instanceof_Error args then
        Normal ((base_event env this lvl msg)\<lparr>ev_fields :=
          JObj (set_prop ''name'' (get_prop args ''name'')
                 (set_prop ''stack'' (get_prop args ''stack'')
                   (set_prop ''message'' (get_prop args ''message'')
                     (spread_into [] (configured_fields this)))))\<rparr>)
      else if js_typeof args = ''object'' \<and> args \<noteq> JNull \<and> Object_keys args \<noteq> [] then
        (case JSON_parse_stringify jsonFriendlyErrorReplacer args of
           Throw e \<Rightarrow> Throw e
         | Normal parsedArgs \<Rightarrow>
             Normal ((base_event env this lvl msg)\<lparr>ev_fields :=
               JObj (spread_into (spread_into [] (configured_fields this)) parsedArgs)\<rparr>))
      else if truthy args \<and> truthy (get_prop args ''length'') then
        Normal ((base_event env this lvl msg)\<lparr>ev_fields :=
          JObj (set_prop ''args'' args (spread_into [] (configured_fields this)))\<rparr>)
      else Normal (base_event env this lvl msg))"
  by (auto simp: build_event_def base_event_def configured_fields_def Let_def
      split: completion.splits)


lemma build_event_metadata:
  "build_event env this lvl msg args = Normal ev \<Longrightarrow>
     level ev = lvl \<and> message ev = msg \<and> ev_time ev = now_iso env"
  by (auto simp: build_event_cases base_event_def split: if_splits completion.splits)










section \<open>The example loggers\<close>

lemma root_logger_config: "config root_logger = default_config"
  by (simp add: root_logger_def config_new_Logger spread_into_def)

lemma root_logger_level: "logLevel root_logger = level_name Debug"
  by (simp add: root_logger_def logLevel_from_env LOG_LEVEL_def dev_env_sel)

lemma root_logger_fields: "configured_fields root_logger = JObj []"
  by (simp add: configured_fields_def root_logger_config default_config_def lookup_def)

lemma prod_logger_config: "config prod_logger = default_config"
  by (simp add: prod_logger_def config_new_Logger spread_into_def)

lemma prod_logger_level: "logLevel prod_logger = level_name Debug"
  by (simp add: prod_logger_def logLevel_from_env LOG_LEVEL_def prod_env_sel)

lemma prod_logger_fields: "configured_fields prod_logger = JObj []"
  by (simp add: configured_fields_def prod_logger_config default_config_def lookup_def)

lemma prod_logger_client:
  "client prod_logger = Client [(''token'', JStr ''xaat-0000''), (''url'', JStr ''https://api.axiom.co''),
                                (''sdk'', JStr ''next-axiom/v0.1.3'')]"
  by (simp add: prod_logger_def new_Logger_def Let_def prod_env_sel)

section \<open>Delivery and flushing\<close>

lemma prettyPrint_no_client_call: "\<forall>e \<in> set (fst (prettyPrint env ev)). \<not> is_client_call e"
  by (simp add: prettyPrint_def Let_def split: completion.splits option.splits)

lemma ingest_never_throws:
  "isEnvVarsSet (configurator env) \<Longrightarrow> snd (ingest env this ev) = Normal ()"
  by (simp add: ingest_def Let_def split: option.splits)

text \<open>
  C2. The promise that \<^verbatim>\<open>flush()\<close> returns never rejects: when the client's flush
  rejects (or throws), the error is warned to the console and \<^verbatim>\<open>flush\<close> fulfils with
  \<^verbatim>\<open>undefined\<close>; when the client's flush fulfils, \<^verbatim>\<open>flush\<close> fulfils with the same
  value.
\<close>

theorem flush_never_rejects:
  "snd (flush env this) \<noteq> Rejected e
   \<and> ((client_flush env (client this) = Normal (Rejected err) \<or> client_flush env (client this) = Throw err)
        \<longrightarrow> flush env this = ([ClientFlush (client this), ConsoleWarn err], Fulfilled JUndefined))
   \<and> (client_flush env (client this) = Normal (Fulfilled v)
        \<longrightarrow> flush env this = ([ClientFlush (client this)], Fulfilled v))"
  by (simp add: flush_def split: completion.splits promise.splits)

theorem flush_never_rejects_witness:
  "client_flush (example_env True None False None (Normal (Rejected (JStr ''network down''))))
      (client (new_Logger (example_env True None False None (Normal (Rejected (JStr ''network down'')))) JUndefined None))
     = Normal (Rejected (JStr ''network down''))
   \<and> flush (example_env True None False None (Normal (Rejected (JStr ''network down''))))
        (new_Logger (example_env True None False None (Normal (Rejected (JStr ''network down'')))) JUndefined None)
     = ([ClientFlush (Client [(''token'', JStr ''xaat-0000''), (''url'', JStr ''https://api.axiom.co''),
                              (''sdk'', JStr ''next-axiom/v0.1.3'')]),
         ConsoleWarn (JStr ''network down'')], Fulfilled JUndefined)"
proof -
  let ?env = "example_env True None False None (Normal (Rejected (JStr ''network down'')))"
  have h: "client_flush ?env (client (new_Logger ?env JUndefined None))
             = Normal (Rejected (JStr ''network down''))"
    by (simp add: example_env_sel)
  have c: "client (new_Logger ?env JUndefined None)
             = Client [(''token'', JStr ''xaat-0000''), (''url'', JStr ''https://api.axiom.co''),
                       (''sdk'', JStr ''next-axiom/v0.1.3'')]"
    by (simp add: new_Logger_def Let_def example_env_sel)
  from flush_never_rejects [of ?env "new_Logger ?env JUndefined None" JNull "JStr ''network down''" JNull]
  show ?thesis using h by (simp add: c)
qed

text \<open>
  C4. In a call of a level method, if the client's \<^verbatim>\<open>ingest\<close> is called and throws,
  the error is warned to the console and the level method returns normally: the call
  does exactly the client call and the warning.
\<close>

theorem ingest_error_is_caught:
  assumes "level_method L = Some m" and "m env this msg args = (effs, res)"
    and "ClientIngest c ds ev \<in> set effs" and "client_ingest env c ds ev = Some err"
  shows "res = Normal () \<and> effs = [ClientIngest c ds ev, ConsoleWarn err]"
proof -
  define a where "a = (if args = JUndefined then JObj [] else args)"
  have run: "Logger_log env this (level_name L) msg a = (effs, res)"
    using assms(1,2) by (simp add: level_method_name a_def)
  have dflt: "(if a = JUndefined then JObj [] else a) = a" by (simp add: a_def)
  have nf: "\<not> filtered this (level_name L)"
    using run assms(3) by (auto simp: Logger_log_def Let_def)
  then obtain logEvent where
    built: "build_event env this (level_name L) msg a = Normal logEvent"
    using run assms(3)
    by (cases "build_event env this (level_name L) msg a") (auto simp: Logger_log_def Let_def dflt)
  define delivered where "delivered = attach_request this
      (injectPlatformMetadata (configurator env) logEvent (get_prop (JObj (config this)) ''source''))"
  have sink: "ingest env this delivered = (effs, res)"
    using run nf built by (simp add: Logger_log_def Let_def dflt delivered_def)
  have set: "isEnvVarsSet (configurator env)"
  proof (rule ccontr)
    assume "\<not> isEnvVarsSet (configurator env)"
    then have "effs = fst (prettyPrint env delivered)" using sink by (simp add: ingest_def)
    with prettyPrint_no_client_call [of env delivered] assms(3) show False by auto
  qed
  define ds' where "ds' = (if truthy (dataset (configurator env)) then dataset (configurator env)
                           else JStr ''vercel'')"
  have eff: "ClientIngest (client this) ds' delivered \<in> set effs
             \<and> (\<forall>e \<in> set effs. is_client_call e \<longrightarrow> e = ClientIngest (client this) ds' delivered)"
    using sink set by (auto simp: ingest_def Let_def ds'_def split: option.splits)
  with assms(3) have same: "c = client this" "ds = ds'" "ev = delivered" by auto
  with assms(4) show ?thesis
    using sink set by (simp add: ingest_def Let_def ds'_def)
qed

theorem ingest_error_is_caught_witness:
  "level_method Info = Some info
   \<and> info (example_env True None False (Some (JStr ''boom'')) (Normal (Fulfilled JUndefined)))
        (new_Logger (example_env True None False (Some (JStr ''boom'')) (Normal (Fulfilled JUndefined))) JUndefined None)
        ''x'' JUndefined
      = ([ClientIngest (Client [(''token'', JStr ''xaat-0000''), (''url'', JStr ''https://api.axiom.co''),
                              (''sdk'', JStr ''next-axiom/v0.1.3'')])
            (JStr ''logs'')
            \<lparr> level = ''info'', message = ''x'', ev_fields = JObj [],
              ev_time = ''2024-01-01T00:00:00.000Z'', request = JUndefined,
              platform = Some \<lparr> environment = JStr ''dev'', region = JUndefined,
                                route = JUndefined, source = JStr ''frontend'' \<rparr>,
              vercel = None, netlify = JUndefined \<rparr>,
          ConsoleWarn (JStr ''boom'')], Normal ())
   \<and> client_ingest (example_env True None False (Some (JStr ''boom'')) (Normal (Fulfilled JUndefined)))
        (Client [(''token'', JStr ''xaat-0000''), (''url'', JStr ''https://api.axiom.co''),
                 (''sdk'', JStr ''next-axiom/v0.1.3'')])
        (JStr ''logs'')
        \<lparr> level = ''info'', message = ''x'', ev_fields = JObj [],
          ev_time = ''2024-01-01T00:00:00.000Z'', request = JUndefined,
          platform = Some \<lparr> environment = JStr ''dev'', region = JUndefined,
                            route = JUndefined, source = JStr ''frontend'' \<rparr>,
          vercel = None, netlify = JUndefined \<rparr>
      = Some (JStr ''boom'')"
proof -
  let ?env = "example_env True None False (Some (JStr ''boom'')) (Normal (Fulfilled JUndefined))"
  let ?l = "new_Logger ?env JUndefined None"
  let ?c = "Client [(''token'', JStr ''xaat-0000''), (''url'', JStr ''https://api.axiom.co''),
                    (''sdk'', JStr ''next-axiom/v0.1.3'')]"
  let ?ev = "\<lparr> level = ''info'', message = ''x'', ev_fields = JObj [],
              ev_time = ''2024-01-01T00:00:00.000Z'', request = JUndefined,
              platform = Some \<lparr> environment = JStr ''dev'', region = JUndefined,
                                route = JUndefined, source = JStr ''frontend'' \<rparr>,
              vercel = None, netlify = JUndefined \<rparr>"
  have h1: "level_method Info = Some info" by simp
  have c: "client ?l = ?c" by (simp add: new_Logger_def Let_def example_env_sel)
  have cfg: "config ?l = default_config"
    by (simp add: config_new_Logger spread_into_def)
  have nf: "\<not> filtered ?l ''info''"
    using filtered_by_name [of ?l Debug Info]
    by (simp add: logLevel_from_env LOG_LEVEL_def example_env_sel)
  obtain effs res where run: "info ?env ?l ''x'' JUndefined = (effs, res)" by force
  have h3: "ClientIngest ?c (JStr ''logs'') ?ev \<in> set effs"
    using run nf
    by (simp add: info_def Logger_log_def build_event_def cfg default_config_def lookup_def
        Object_keys_def Let_def ingest_def attach_request_def example_env_sel c) auto
  have h4: "client_ingest ?env ?c (JStr ''logs'') ?ev = Some (JStr ''boom'')"
    by (simp add: example_env_sel)
  from ingest_error_is_caught [OF h1 run h3 h4] run h1 h4 show ?thesis by simp
qed

section \<open>The console fallback\<close>





section \<open>The fields of an event\<close>

text \<open>
  C5. When the argument of a level method (of \<^verbatim>\<open>error(msg, err)\<close> in particular) is
  an \<^verbatim>\<open>Error\<close>, the fields of the event that is built hold the error's message,
  stack and name under the keys \<^verbatim>\<open>message\<close>, \<^verbatim>\<open>stack\<close> and \<^verbatim>\<open>name\<close>; every
  other key is as configured, and the error object itself is the value of no key
  (unless the configured \<^verbatim>\<open>args\<close> already hold it). This event is the one the call
  hands to the platform metadata provider and to the sink.
\<close>

theorem error_argument_is_decomposed:
  assumes "level_method L = Some m"
  shows "\<exists>ev fs. build_event env this (level_name L) msg (JError n e st ps) = Normal ev
      \<and> ev_fields ev = JObj fs
      \<and> map_of fs ''message'' = Some (JStr e)
      \<and> map_of fs ''stack'' = Some (case st of None \<Rightarrow> JUndefined | Some t \<Rightarrow> JStr t)
      \<and> map_of fs ''name'' = Some (JStr n)
      \<and> (\<forall>k. k \<notin> {''message'', ''stack'', ''name''}
             \<longrightarrow> map_of fs k = map_of (spread_into [] (configured_fields this)) k)
      \<and> (JError n e st ps \<notin> snd ` set (own_entries (configured_fields this))
             \<longrightarrow> JError n e st ps \<notin> snd ` set fs)
      \<and> m env this msg (JError n e st ps)
          = (if filtered this (level_name L) then ([], Normal ())
             else ingest env this (attach_request this
                    (injectPlatformMetadata (configurator env) ev
                      (get_prop (JObj (config this)) ''source''))))"
proof -
  define sv where "sv = (case st of None \<Rightarrow> JUndefined | Some t \<Rightarrow> JStr t)"
  define base where "base = spread_into [] (configured_fields this)"
  define fs where "fs = set_prop ''name'' (JStr n) (set_prop ''stack'' sv (set_prop ''message'' (JStr e) base))"
  define ev where "ev = (base_event env this (level_name L) msg)\<lparr>ev_fields := JObj fs\<rparr>"
  have built: "build_event env this (level_name L) msg (JError n e st ps) = Normal ev"
    by (simp add: build_event_cases ev_def fs_def base_def sv_def)
  have vals: "snd ` set fs \<subseteq> {JStr n, sv, JStr e} \<union> snd ` set (own_entries (configured_fields this))"
  proof -
    have "snd ` set fs \<subseteq> insert (JStr n) (insert sv (insert (JStr e) (snd ` set base)))"
      unfolding fs_def
      using values_set_prop [of "''name''" "JStr n" "set_prop ''stack'' sv (set_prop ''message'' (JStr e) base)"]
        values_set_prop [of "''stack''" sv "set_prop ''message'' (JStr e) base"]
        values_set_prop [of "''message''" "JStr e" base]
      by blast
    moreover have "snd ` set base \<subseteq> snd ` set (own_entries (configured_fields this))"
      using values_spread_into [of "[]" "configured_fields this"] by (simp add: base_def)
    ultimately show ?thesis by blast
  qed
  have "JError n e st ps \<notin> {JStr n, sv, JStr e}" by (simp add: sv_def split: option.splits)
  with vals have absent: "JError n e st ps \<notin> snd ` set (own_entries (configured_fields this))
             \<longrightarrow> JError n e st ps \<notin> snd ` set fs"
    by blast
  have call: "m env this msg (JError n e st ps)
          = (if filtered this (level_name L) then ([], Normal ())
             else ingest env this (attach_request this
                    (injectPlatformMetadata (configurator env) ev
                      (get_prop (JObj (config this)) ''source''))))"
    by (simp add: level_method_name [OF assms] Logger_log_def built)
  have "ev_fields ev = JObj fs" by (simp add: ev_def)
  moreover have "map_of fs ''message'' = Some (JStr e)" "map_of fs ''stack'' = Some sv"
    "map_of fs ''name'' = Some (JStr n)"
    and "\<forall>k. k \<notin> {''message'', ''stack'', ''name''} \<longrightarrow> map_of fs k = map_of base k"
    by (simp_all add: fs_def map_of_set_prop)
  ultimately show ?thesis
    using built absent call unfolding sv_def base_def by blast
qed

theorem error_argument_is_decomposed_witness:
  "level_method Error = Some error
   \<and> JError ''Error'' ''bad'' (Some ''at handler'') []
        \<notin> snd ` set (own_entries (configured_fields prod_logger))
   \<and> (\<exists>ev fs. build_event prod_env prod_logger ''error'' ''boom''
                  (JError ''Error'' ''bad'' (Some ''at handler'') []) = Normal ev
         \<and> ev_fields ev = JObj fs
         \<and> map_of fs ''message'' = Some (JStr ''bad'')
         \<and> map_of fs ''stack'' = Some (JStr ''at handler'')
         \<and> map_of fs ''name'' = Some (JStr ''Error'')
         \<and> JError ''Error'' ''bad'' (Some ''at handler'') [] \<notin> snd ` set fs)"
proof -
  have h: "level_method Error = Some error" by simp
  have a: "JError ''Error'' ''bad'' (Some ''at handler'') []
        \<notin> snd ` set (own_entries (configured_fields prod_logger))"
    by (simp add: prod_logger_fields)
  from error_argument_is_decomposed [OF h, of prod_env prod_logger "''boom''" "''Error''" "''bad''"
      "Some ''at handler''" "[]"] a
  have "\<exists>ev fs. build_event prod_env prod_logger ''error'' ''boom''
                  (JError ''Error'' ''bad'' (Some ''at handler'') []) = Normal ev
         \<and> ev_fields ev = JObj fs
         \<and> map_of fs ''message'' = Some (JStr ''bad'')
         \<and> map_of fs ''stack'' = Some (JStr ''at handler'')
         \<and> map_of fs ''name'' = Some (JStr ''Error'')
         \<and> JError ''Error'' ''bad'' (Some ''at handler'') [] \<notin> snd ` set fs"
    by (elim exE conjE, intro exI conjI) simp_all
  with h a show ?thesis by (intro conjI)
qed

text \<open>
  What the argument of a level method adds to the fields, where the code does what it
  sets out to do: the entries of a mapping of JSON values (with distinct keys) are
  spread into the fields and win over the configured ones, and a non-empty string is
  stored under the key \<^verbatim>\<open>args\<close>.
\<close>

lemma mapping_argument_is_spread:
  assumes "es \<noteq> []" and "json_clean (JObj es)" and "distinct (map fst es)"
  shows "\<exists>ev fs. build_event env this lvl msg (JObj es) = Normal ev \<and> ev_fields ev = JObj fs
            \<and> map_of fs = map_of (spread_into [] (configured_fields this)) ++ map_of es"
proof -
  define fs where "fs = spread_into (spread_into [] (configured_fields this)) (JObj es)"
  have "build_event env this lvl msg (JObj es)
          = Normal ((base_event env this lvl msg)\<lparr>ev_fields := JObj fs\<rparr>)"
    using assms(1) JSON_parse_stringify_clean [OF assms(2)]
    by (simp add: build_event_cases Object_keys_def fs_def)
  moreover have "map_of fs = map_of (spread_into [] (configured_fields this)) ++ map_of es"
    using assms(3) by (simp add: fs_def map_of_spread_into Object_keys_def)
  ultimately show ?thesis by simp
qed

lemma string_argument_is_stored:
  assumes "s \<noteq> []"
  shows "\<exists>ev fs. build_event env this lvl msg (JStr s) = Normal ev \<and> ev_fields ev = JObj fs
            \<and> map_of fs = (map_of (spread_into [] (configured_fields this)))(''args'' \<mapsto> JStr s)"
proof -
  from assms have "build_event env this lvl msg (JStr s)
          = Normal ((base_event env this lvl msg)\<lparr>ev_fields :=
              JObj (set_prop ''args'' (JStr s) (spread_into [] (configured_fields this)))\<rparr>)"
    by (simp add: build_event_cases)
  then show ?thesis by (simp add: map_of_set_prop)
qed

text \<open>
  C6. An argument that is not a plain mapping, a bare value or an array, should be
  stored under \<^verbatim>\<open>fields.args\<close>. The code does that for a non-empty string only. A
  number or a boolean has no \<^verbatim>\<open>length\<close>, so the test \<^verbatim>\<open>args && args.length\<close> of
  line 125 drops it and the fields stay as configured, against the comment of line 119.
  An array never reaches that test with a length: a non-empty array is an object with
  keys, which line 122 takes and spreads under its indices, and an empty array has
  length 0.
\<close>

theorem bare_value_and_array_not_under_args:
  "build_event env this lvl msg (JNum n) = Normal (base_event env this lvl msg)
   \<and> build_event env this lvl msg (JBool b) = Normal (base_event env this lvl msg)
   \<and> build_event env this lvl msg (JArr []) = Normal (base_event env this lvl msg)
   \<and> ev_fields (base_event env this lvl msg) = configured_fields this
   \<and> build_event env this lvl msg (JArr [JNum 1, JNum 2])
       = Normal ((base_event env this lvl msg)\<lparr>ev_fields :=
           JObj (set_prop ''1'' (JNum 2) (set_prop ''0'' (JNum 1)
                  (spread_into [] (configured_fields this))))\<rparr>)
   \<and> info dev_env root_logger ''x'' (JNum 42)
       = ([ConsoleLog [JStr ([CHR 0x1B] @ ''[32m%s'' @ [CHR 0x1B] @ ''[0m - %s''),
                       JStr ''info'', JStr ''x'']], Normal ())
   \<and> info dev_env root_logger ''x'' (JArr [JNum 1, JNum 2])
       = ([ConsoleLog [JStr ([CHR 0x1B] @ ''[32m%s'' @ [CHR 0x1B] @ ''[0m - %s %o''),
                       JStr ''info'', JStr ''x'',
                       JObj [(''0'', JNum 1), (''1'', JNum 2)]]], Normal ())"
proof -
  have nf: "\<not> filtered root_logger ''info''"
    using filtered_by_name [OF root_logger_level, of Info] by simp
  have general:
    "build_event env this lvl msg (JNum n) = Normal (base_event env this lvl msg)"
    "build_event env this lvl msg (JBool b) = Normal (base_event env this lvl msg)"
    "build_event env this lvl msg (JArr []) = Normal (base_event env this lvl msg)"
    "ev_fields (base_event env this lvl msg) = configured_fields this"
    "build_event env this lvl msg (JArr [JNum 1, JNum 2])
       = Normal ((base_event env this lvl msg)\<lparr>ev_fields :=
           JObj (set_prop ''1'' (JNum 2) (set_prop ''0'' (JNum 1)
                  (spread_into [] (configured_fields this))))\<rparr>)"
    for env this lvl msg n b
    by (simp_all add: build_event_cases Object_keys_def JSON_parse_stringify_def
        jsonFriendlyErrorReplacer_def base_event_def show_nat.simps digit_char_def
        spread_into_def [of _ "JArr _"])
  have number: "info dev_env root_logger ''x'' (JNum 42)
       = ([ConsoleLog [JStr ([CHR 0x1B] @ ''[32m%s'' @ [CHR 0x1B] @ ''[0m - %s''),
                       JStr ''info'', JStr ''x'']], Normal ())"
    using nf
    by (simp add: info_def Logger_log_def general base_event_def root_logger_fields
        root_logger_config default_config_def lookup_def Object_keys_def Let_def
        ingest_def prettyPrint_def attach_request_def levelColors_def dev_env_sel)
  have array: "info dev_env root_logger ''x'' (JArr [JNum 1, JNum 2])
       = ([ConsoleLog [JStr ([CHR 0x1B] @ ''[32m%s'' @ [CHR 0x1B] @ ''[0m - %s %o''),
                       JStr ''info'', JStr ''x'',
                       JObj [(''0'', JNum 1), (''1'', JNum 2)]]], Normal ())"
    using nf
    by (simp add: info_def Logger_log_def general base_event_def root_logger_fields
        root_logger_config default_config_def lookup_def Object_keys_def Let_def
        ingest_def prettyPrint_def attach_request_def levelColors_def dev_env_sel
        spread_into_def)
  from general number array show ?thesis by (intro conjI)
qed

text \<open>
  C9. The fields of an event are a map of their own, nested under the event's
  \<^verbatim>\<open>fields\<close>, and no key is kept out of them: a key of the argument goes into the
  fields whatever its name. The level, the message and the time of the event are the
  ones of the call, whatever the fields hold.
\<close>

theorem event_metadata_is_the_calls_own:
  assumes "build_event env this lvl msg args = Normal ev"
  shows "level ev = lvl \<and> message ev = msg \<and> ev_time ev = now_iso env
       \<and> (\<forall>k v. args = JObj [(k, v)] \<longrightarrow> json_clean v
            \<longrightarrow> (\<exists>fs. ev_fields ev = JObj fs \<and> map_of fs k = Some v))"
proof -
  have "\<exists>fs. ev_fields ev = JObj fs \<and> map_of fs k = Some v"
    if a: "args = JObj [(k, v)]" and c: "json_clean v" for k v
  proof -
    have "json_clean (JObj [(k, v)])" using c by simp
    then have "JSON_parse_stringify jsonFriendlyErrorReplacer (JObj [(k, v)]) = Normal (JObj [(k, v)])"
      by (rule JSON_parse_stringify_clean)
    with assms have "ev_fields ev
        = JObj (spread_into (spread_into [] (configured_fields this)) (JObj [(k, v)]))"
      by (auto simp: a build_event_cases Object_keys_def)
    then show ?thesis by (simp add: spread_into_def [of _ "JObj _"] map_of_set_prop)
  qed
  with build_event_metadata [OF assms] show ?thesis by blast
qed

theorem event_metadata_is_the_calls_own_witness:
  "build_event dev_env root_logger ''info'' ''x'' (JObj [(''level'', JStr ''fatal'')])
     = Normal ((base_event dev_env root_logger ''info'' ''x'')\<lparr>ev_fields :=
         JObj [(''level'', JStr ''fatal'')]\<rparr>)
   \<and> level ((base_event dev_env root_logger ''info'' ''x'')\<lparr>ev_fields :=
         JObj [(''level'', JStr ''fatal'')]\<rparr>) = ''info''
   \<and> message ((base_event dev_env root_logger ''info'' ''x'')\<lparr>ev_fields :=
         JObj [(''level'', JStr ''fatal'')]\<rparr>) = ''x''"
proof -
  have h: "build_event dev_env root_logger ''info'' ''x'' (JObj [(''level'', JStr ''fatal'')])
     = Normal ((base_event dev_env root_logger ''info'' ''x'')\<lparr>ev_fields :=
         JObj [(''level'', JStr ''fatal'')]\<rparr>)"
    by (simp add: build_event_cases Object_keys_def JSON_parse_stringify_def
        jsonFriendlyErrorReplacer_def root_logger_fields spread_into_def)
  from event_metadata_is_the_calls_own [OF h] h show ?thesis by simp
qed

theorem reserved_key_in_fields_counterexample:
  "error prod_env prod_logger ''boom'' (JError ''Error'' ''bad'' None [])
     = ([ClientIngest (client prod_logger) (JStr ''logs'')
          \<lparr> level = ''error'', message = ''boom'',
            ev_fields = JObj [(''message'', JStr ''bad''), (''stack'', JUndefined),
                              (''name'', JStr ''Error'')],
            ev_time = ''2024-01-01T00:00:00.000Z'', request = JUndefined,
            platform = Some \<lparr> environment = JStr ''dev'', region = JUndefined,
                              route = JUndefined, source = JStr ''frontend'' \<rparr>,
            vercel = None, netlify = JUndefined \<rparr>],
        Normal ())
   \<and> info prod_env prod_logger ''x'' (JObj [(''level'', JStr ''fatal''), (''_time'', JStr ''never'')])
     = ([ClientIngest (client prod_logger) (JStr ''logs'')
          \<lparr> level = ''info'', message = ''x'',
            ev_fields = JObj [(''level'', JStr ''fatal''), (''_time'', JStr ''never'')],
            ev_time = ''2024-01-01T00:00:00.000Z'', request = JUndefined,
            platform = Some \<lparr> environment = JStr ''dev'', region = JUndefined,
                              route = JUndefined, source = JStr ''frontend'' \<rparr>,
            vercel = None, netlify = JUndefined \<rparr>],
        Normal ())"
proof -
  have nf: "\<not> filtered prod_logger ''error''" "\<not> filtered prod_logger ''info''"
    using filtered_by_name [OF prod_logger_level, of Error]
      filtered_by_name [OF prod_logger_level, of Info] by simp_all
  show ?thesis
    using nf
    by (simp add: error_def info_def Logger_log_def build_event_cases Object_keys_def
        JSON_parse_stringify_def jsonFriendlyErrorReplacer_def prod_logger_fields spread_into_def
        base_event_def ingest_def attach_request_def prod_logger_config default_config_def
        lookup_def prod_env_sel Let_def)
qed

section \<open>Child loggers\<close>

text \<open>
  The stores that the constructor and the three methods build are well formed, so the
  invariant that the theorems below assume of a store is the one every store has.
\<close>

lemma wf_store_empty: "wf_store []"
  by (simp add: wf_store_def)

lemma wf_store_alloc: "wf_store s \<Longrightarrow> wf_store (s @ [new_Logger env ic co])"
  by (auto simp: wf_store_def wf_new_Logger children_new_Logger less_Suc_eq)

lemma wf_store_register:
  assumes "wf_store s" and "p < length s" and "c < length s"
  shows "wf_store (s[p := (s ! p)\<lparr>children := children (s ! p) @ [c]\<rparr>])"
proof -
  have "wf_logger l \<and> (\<forall>d \<in> set (children l). d < length s)"
    if "l \<in> set (s[p := (s ! p)\<lparr>children := children (s ! p) @ [c]\<rparr>])" for l
  proof (cases "l = (s ! p)\<lparr>children := children (s ! p) @ [c]\<rparr>")
    case True
    from assms(1,2) have "wf_logger (s ! p)" and "\<forall>d \<in> set (children (s ! p)). d < length s"
      by (auto simp: wf_store_def)
    with True assms(3) show ?thesis by (auto simp: wf_logger_def)
  next
    case False
    with that have "l \<in> set s" by (auto dest: set_update_subset_insert [THEN subsetD])
    with assms(1) show ?thesis by (simp add: wf_store_def)
  qed
  then show ?thesis by (simp add: wf_store_def)
qed

lemma wf_store_with:
  assumes "wf_store s" and "Logger_with env s p cfg = Some (c, s')"
  shows "wf_store s'"
proof -
  from assms(2) have p: "p < length s" by (simp add: Logger_with_def split: if_splits)
  define child where "child = new_Logger env
      (JObj (spread_into (spread_into [] (JObj (config (s ! p)))) cfg)) (clientOpts (s ! p))"
  let ?t = "s @ [child]"
  have t: "wf_store ?t" unfolding child_def using assms(1) by (rule wf_store_alloc)
  have "s' = ?t[p := (?t ! p)\<lparr>children := children (?t ! p) @ [length s]\<rparr>]"
    using assms(2) p by (auto simp add: Logger_with_def Let_def child_def nth_append)
  moreover have "p < length ?t" "length s < length ?t" using p by simp_all
  ultimately show ?thesis using wf_store_register [OF t] by simp
qed

lemma wf_store_withArgs:
  assumes "wf_store s" and "withArgs env s p args = Some (c, s')"
  shows "wf_store s'"
proof -
  from assms(2) have p: "p < length s" by (simp add: withArgs_def split: if_splits)
  define child where "child = new_Logger env
      (JObj (set_prop ''args''
         (JObj (spread_into (spread_into [] (get_prop (JObj (config (s ! p))) ''args'')) args))
         (spread_into [] (JObj (config (s ! p)))))) (clientOpts (s ! p))"
  let ?t = "s @ [child]"
  have t: "wf_store ?t" unfolding child_def using assms(1) by (rule wf_store_alloc)
  have "s' = ?t[p := (?t ! p)\<lparr>children := children (?t ! p) @ [length s]\<rparr>]"
    using assms(2) p by (auto simp add: withArgs_def Let_def child_def nth_append)
  moreover have "p < length ?t" "length s < length ?t" using p by simp_all
  ultimately show ?thesis using wf_store_register [OF t] by simp
qed

lemma wf_store_withRequest:
  assumes "wf_store s" and "withRequest env s p req = Some (c, s')"
  shows "wf_store s'"
  using assms by (auto simp: withRequest_def Let_def wf_store_alloc split: if_splits)


text \<open>
  C7. \<^verbatim>\<open>with(configOverrides)\<close> on a logger returns a new logger whose configuration
  is the shallow merge of the receiver's configuration with the overrides, the keys of
  the overrides winning, and pushes the new logger onto the receiver's children. Nothing
  else of the receiver changes, and no other logger of the store changes.
\<close>

theorem with_merges_config_and_registers_child:
  assumes "p < length s" and "wf_logger (s ! p)" and "distinct (Object_keys overrides)"
  shows "\<exists>s'. Logger_with env s p overrides = Some (length s, s')
           \<and> length s' = Suc (length s)
           \<and> map_of (config (s' ! length s))
               = map_of (config (s ! p)) ++ map_of (own_entries overrides)
           \<and> s' ! p = (s ! p)\<lparr>children := children (s ! p) @ [length s]\<rparr>
           \<and> (\<forall>q < length s. q \<noteq> p \<longrightarrow> s' ! q = s ! q)"
proof -
  define newConfig where "newConfig = spread_into (spread_into [] (JObj (config (s ! p)))) overrides"
  define child where "child = new_Logger env (JObj newConfig) (clientOpts (s ! p))"
  define s' where "s' = (s @ [child])[p := (s ! p)\<lparr>children := children (s ! p) @ [length s]\<rparr>]"
  from assms(2) have d: "distinct (map fst (config (s ! p)))"
    and src: "''source'' \<in> fst ` set (config (s ! p))"
    and lvl: "''logLevel'' \<in> fst ` set (config (s ! p))"
    by (simp_all add: wf_logger_def)
  have nc: "newConfig = spread_into (config (s ! p)) overrides"
    using d by (simp add: newConfig_def spread_into_empty)
  have "distinct (map fst newConfig)"
    using d by (simp add: nc distinct_spread_into)
  moreover have "''source'' \<in> fst ` set newConfig" and "''logLevel'' \<in> fst ` set newConfig"
    using src lvl by (simp_all add: nc keys_spread_into)
  ultimately have "map_of (config child) = map_of newConfig"
    unfolding child_def by (rule map_of_config_child)
  also have "\<dots> = map_of (config (s ! p)) ++ map_of (own_entries overrides)"
    using assms(3) by (simp add: nc map_of_spread_into)
  finally have merged: "map_of (config child) = map_of (config (s ! p)) ++ map_of (own_entries overrides)" .
  have call: "Logger_with env s p overrides = Some (length s, s')"
    using assms(1) by (simp add: Logger_with_def Let_def s'_def child_def newConfig_def)
  have "s' ! length s = child"
    using assms(1) by (simp add: s'_def nth_list_update nth_append)
  moreover have "s' ! p = (s ! p)\<lparr>children := children (s ! p) @ [length s]\<rparr>"
    using assms(1) by (simp add: s'_def)
  moreover have "\<forall>q < length s. q \<noteq> p \<longrightarrow> s' ! q = s ! q"
    by (simp add: s'_def nth_list_update nth_append)
  moreover have "length s' = Suc (length s)" by (simp add: s'_def)
  ultimately show ?thesis using call merged by simp
qed

theorem with_merges_config_witness:
  "(0::nat) < length [root_logger] \<and> wf_logger ([root_logger] ! 0)
     \<and> distinct (Object_keys (JObj [(''source'', JStr ''api''), (''req'', JNull)]))
     \<and> (\<exists>s'. Logger_with dev_env [root_logger] 0 (JObj [(''source'', JStr ''api''), (''req'', JNull)])
                = Some (1, s')
           \<and> map_of (config (s' ! 1)) ''source'' = Some (JStr ''api'')
           \<and> map_of (config (s' ! 1)) ''logLevel'' = Some (JNum 0)
           \<and> map_of (config (s' ! 1)) ''req'' = Some JNull
           \<and> children (s' ! 0) = [1])"
proof -
  have h1: "(0::nat) < length [root_logger]" by simp
  have h2: "wf_logger ([root_logger] ! 0)" by (simp add: root_logger_def wf_new_Logger)
  have h3: "distinct (Object_keys (JObj [(''source'', JStr ''api''), (''req'', JNull)]))"
    by (simp add: Object_keys_def)
  have cfg: "config root_logger = default_config"
    by (simp add: root_logger_def config_new_Logger spread_into_def)
  have ch: "children root_logger = []"
    by (simp add: root_logger_def new_Logger_def Let_def)
  from with_merges_config_and_registers_child [OF h1 h2 h3, of dev_env]
  show ?thesis using h1 h2 h3
    by (auto simp: cfg ch default_config_def map_add_def)
qed

text \<open>
  C8. \<^verbatim>\<open>withArgs(args)\<close> changes the configuration at the key \<^verbatim>\<open>args\<close> only,
  where it puts the merge of the configured \<^verbatim>\<open>args\<close> with the given ones; every
  other key keeps the receiver's value. Chaining \<^verbatim>\<open>withArgs({a: 1})\<close> and
  \<^verbatim>\<open>withArgs({b: 2})\<close> gives a logger whose configured \<^verbatim>\<open>args\<close> hold both
  \<^verbatim>\<open>a\<close> and \<^verbatim>\<open>b\<close>.
\<close>

theorem withArgs_merges_only_args:
  assumes "p < length s" and "wf_logger (s ! p)"
  shows "(\<exists>s'. withArgs env s p args = Some (length s, s')
            \<and> map_of (config (s' ! length s))
                = (map_of (config (s ! p)))(''args'' \<mapsto>
                    JObj (spread_into (spread_into [] (get_prop (JObj (config (s ! p))) ''args'')) args))
            \<and> s' ! p = (s ! p)\<lparr>children := children (s ! p) @ [length s]\<rparr>)
       \<and> (\<exists>s1 s2. withArgs env s p (JObj [(''a'', JNum 1)]) = Some (length s, s1)
            \<and> withArgs env s1 (length s) (JObj [(''b'', JNum 2)]) = Some (Suc (length s), s2)
            \<and> get_prop (get_prop (JObj (config (s2 ! Suc (length s)))) ''args'') ''a'' = JNum 1
            \<and> get_prop (get_prop (JObj (config (s2 ! Suc (length s)))) ''args'') ''b'' = JNum 2
            \<and> (\<forall>k. k \<noteq> ''args'' \<longrightarrow>
                  map_of (config (s2 ! Suc (length s))) k = map_of (config (s ! p)) k))"
proof -
  have step: "\<exists>s'. withArgs env t q x = Some (length t, s')
            \<and> length s' = Suc (length t)
            \<and> s' ! length t = new_Logger env (JObj (set_prop ''args''
                  (JObj (spread_into (spread_into [] (get_prop (JObj (config (t ! q))) ''args'')) x))
                  (spread_into [] (JObj (config (t ! q)))))) (clientOpts (t ! q))
            \<and> map_of (config (s' ! length t))
                = (map_of (config (t ! q)))(''args'' \<mapsto>
                    JObj (spread_into (spread_into [] (get_prop (JObj (config (t ! q))) ''args'')) x))
            \<and> s' ! q = (t ! q)\<lparr>children := children (t ! q) @ [length t]\<rparr>"
    if "q < length t" and "wf_logger (t ! q)" for t q x
    using that by (simp add: withArgs_def Let_def nth_append map_of_config_set_key)
  from step [OF assms, of args] have first: "\<exists>s'. withArgs env s p args = Some (length s, s')
            \<and> map_of (config (s' ! length s))
                = (map_of (config (s ! p)))(''args'' \<mapsto>
                    JObj (spread_into (spread_into [] (get_prop (JObj (config (s ! p))) ''args'')) args))
            \<and> s' ! p = (s ! p)\<lparr>children := children (s ! p) @ [length s]\<rparr>"
    by blast
  define m1 where "m1 = spread_into (spread_into [] (get_prop (JObj (config (s ! p))) ''args''))
                          (JObj [(''a'', JNum 1)])"
  from step [OF assms, of "JObj [(''a'', JNum 1)]"] obtain s1 where
    c1: "withArgs env s p (JObj [(''a'', JNum 1)]) = Some (length s, s1)"
    and len1: "length s1 = Suc (length s)"
    and new1: "s1 ! length s = new_Logger env (JObj (set_prop ''args'' (JObj m1)
                  (spread_into [] (JObj (config (s ! p)))))) (clientOpts (s ! p))"
    and cfg1: "map_of (config (s1 ! length s)) = (map_of (config (s ! p)))(''args'' \<mapsto> JObj m1)"
    unfolding m1_def by blast
  have q: "length s < length s1" by (simp add: len1)
  have wf1: "wf_logger (s1 ! length s)" by (simp add: new1 wf_new_Logger)
  have args1: "get_prop (JObj (config (s1 ! length s))) ''args'' = JObj m1"
    by (rule get_prop_config_key) (simp add: cfg1)
  have d1: "distinct (map fst m1)"
    unfolding m1_def by (intro distinct_spread_into distinct_from_empty)
  have a1: "map_of m1 ''a'' = Some (JNum 1)"
    by (simp add: m1_def spread_into_def [of _ "JObj _"] map_of_set_prop)
  define m2 where "m2 = spread_into (spread_into [] (JObj m1)) (JObj [(''b'', JNum 2)])"
  from step [OF q wf1, of "JObj [(''b'', JNum 2)]"] obtain s2 where
    c2: "withArgs env s1 (length s) (JObj [(''b'', JNum 2)]) = Some (Suc (length s), s2)"
    and cfg2: "map_of (config (s2 ! Suc (length s))) = (map_of (config (s1 ! length s)))(''args'' \<mapsto> JObj m2)"
    unfolding m2_def args1 len1 by blast
  have m2: "map_of m2 = (map_of m1)(''b'' \<mapsto> JNum 2)"
    using d1 by (simp add: m2_def spread_into_empty) (simp add: spread_into_def map_of_set_prop)
  have args2: "get_prop (JObj (config (s2 ! Suc (length s)))) ''args'' = JObj m2"
    by (rule get_prop_config_key) (simp add: cfg2)
  have "get_prop (JObj m2) ''a'' = JNum 1" and "get_prop (JObj m2) ''b'' = JNum 2"
    by (simp_all add: lookup_def m2 a1)
  moreover have "\<forall>k. k \<noteq> ''args'' \<longrightarrow>
      map_of (config (s2 ! Suc (length s))) k = map_of (config (s ! p)) k"
    by (simp add: cfg2 cfg1)
  ultimately show ?thesis using first c1 c2 args2 by auto
qed

theorem withArgs_chain_witness:
  "(0::nat) < length [root_logger] \<and> wf_logger ([root_logger] ! 0)
   \<and> (\<exists>s1 s2. withArgs dev_env [root_logger] 0 (JObj [(''a'', JNum 1)]) = Some (1, s1)
            \<and> withArgs dev_env s1 1 (JObj [(''b'', JNum 2)]) = Some (2, s2)
            \<and> get_prop (get_prop (JObj (config (s2 ! 2))) ''args'') ''a'' = JNum 1
            \<and> get_prop (get_prop (JObj (config (s2 ! 2))) ''args'') ''b'' = JNum 2
            \<and> map_of (config (s2 ! 2)) ''source'' = Some (JStr ''frontend'')
            \<and> map_of (config (s2 ! 2)) ''logLevel'' = Some (JNum 0))"
proof -
  have h1: "(0::nat) < length [root_logger]" by simp
  have h2: "wf_logger ([root_logger] ! 0)" by (simp add: root_logger_def wf_new_Logger)
  have cfg: "config root_logger = default_config"
    by (simp add: root_logger_def config_new_Logger spread_into_def)
  have one: "length [root_logger] = 1" by simp
  note t = withArgs_merges_only_args [OF h1 h2, of dev_env JNull, THEN conjunct2, unfolded one Suc_1]
  from t obtain s1 s2 where
    c1: "withArgs dev_env [root_logger] 0 (JObj [(''a'', JNum 1)]) = Some (1, s1)"
    and c2: "withArgs dev_env s1 1 (JObj [(''b'', JNum 2)]) = Some (2, s2)"
    and a: "get_prop (get_prop (JObj (config (s2 ! 2))) ''args'') ''a'' = JNum 1"
    and b: "get_prop (get_prop (JObj (config (s2 ! 2))) ''args'') ''b'' = JNum 2"
    and rest: "\<forall>k. k \<noteq> ''args'' \<longrightarrow> map_of (config (s2 ! 2)) k = map_of (config ([root_logger] ! 0)) k"
    by (elim exE conjE) (rule that)
  from rest have "map_of (config (s2 ! 2)) ''source'' = Some (JStr ''frontend'')"
    and "map_of (config (s2 ! 2)) ''logLevel'' = Some (JNum 0)"
    by (simp_all add: cfg default_config_def)
  with c1 c2 a b have "\<exists>s1 s2. withArgs dev_env [root_logger] 0 (JObj [(''a'', JNum 1)]) = Some (1, s1)
            \<and> withArgs dev_env s1 1 (JObj [(''b'', JNum 2)]) = Some (2, s2)
            \<and> get_prop (get_prop (JObj (config (s2 ! 2))) ''args'') ''a'' = JNum 1
            \<and> get_prop (get_prop (JObj (config (s2 ! 2))) ''args'') ''b'' = JNum 2
            \<and> map_of (config (s2 ! 2)) ''source'' = Some (JStr ''frontend'')
            \<and> map_of (config (s2 ! 2)) ''logLevel'' = Some (JNum 0)"
    by (intro exI [of _ s1] exI [of _ s2] conjI)
  with h1 h2 show ?thesis by (intro conjI)
qed

text \<open>
  C10. \<^verbatim>\<open>withRequest(req)\<close> returns a new logger whose configuration holds the
  request context merged under \<^verbatim>\<open>req\<close>, and changes no logger of the store: the
  receiver keeps its children, and the new logger is a child of nobody. \<^verbatim>\<open>with\<close>
  and \<^verbatim>\<open>withArgs\<close>, called on the same receiver, do register the logger they return.
\<close>

theorem withRequest_does_not_register:
  assumes "p < length s" and "wf_store s"
  shows "\<exists>child. withRequest env s p req = Some (length s, s @ [child])
           \<and> map_of (config child)
               = (map_of (config (s ! p)))(''req'' \<mapsto>
                   JObj (spread_into (spread_into [] (get_prop (JObj (config (s ! p))) ''req'')) req))
           \<and> children child = []
           \<and> (s @ [child]) ! p = s ! p
           \<and> (\<forall>l \<in> set (s @ [child]). length s \<notin> set (children l))
           \<and> (\<exists>s'. Logger_with env s p overrides = Some (length s, s')
                 \<and> length s \<in> set (children (s' ! p)))
           \<and> (\<exists>s'. withArgs env s p args = Some (length s, s')
                 \<and> length s \<in> set (children (s' ! p)))"
proof -
  define child where "child = new_Logger env (JObj (set_prop ''req''
      (JObj (spread_into (spread_into [] (get_prop (JObj (config (s ! p))) ''req'')) req))
      (spread_into [] (JObj (config (s ! p)))))) (clientOpts (s ! p))"
  from assms have wf: "wf_logger (s ! p)" by (simp add: wf_store_nth)
  have "withRequest env s p req = Some (length s, s @ [child])"
    using assms(1) by (simp add: withRequest_def Let_def child_def)
  moreover have "map_of (config child)
               = (map_of (config (s ! p)))(''req'' \<mapsto>
                   JObj (spread_into (spread_into [] (get_prop (JObj (config (s ! p))) ''req'')) req))"
    unfolding child_def using wf by (rule map_of_config_set_key)
  moreover have "children child = []" by (simp add: child_def children_new_Logger)
  moreover have "(s @ [child]) ! p = s ! p" using assms(1) by (simp add: nth_append)
  moreover have "\<forall>l \<in> set (s @ [child]). length s \<notin> set (children l)"
    using assms(2) by (auto simp: child_def children_new_Logger wf_store_children)
  moreover have "\<exists>s'. Logger_with env s p overrides = Some (length s, s')
                 \<and> length s \<in> set (children (s' ! p))"
    using assms(1) by (simp add: Logger_with_def Let_def)
  moreover have "\<exists>s'. withArgs env s p args = Some (length s, s')
                 \<and> length s \<in> set (children (s' ! p))"
    using assms(1) by (simp add: withArgs_def Let_def)
  ultimately show ?thesis by blast
qed

theorem withRequest_witness:
  "(0::nat) < length [root_logger] \<and> wf_store [root_logger]
   \<and> (\<exists>child. withRequest dev_env [root_logger] 0 (JObj [(''path'', JStr ''/api'')])
                  = Some (1, [root_logger, child])
        \<and> map_of (config child) ''req'' = Some (JObj [(''path'', JStr ''/api'')])
        \<and> map_of (config child) ''source'' = Some (JStr ''frontend'')
        \<and> children child = []
        \<and> children ([root_logger, child] ! 0) = [])"
proof -
  have h1: "(0::nat) < length [root_logger]" by simp
  have ch: "children root_logger = []" by (simp add: root_logger_def children_new_Logger)
  have h2: "wf_store [root_logger]"
    by (simp add: wf_store_def ch) (simp add: root_logger_def wf_new_Logger)
  have cfg: "config root_logger = default_config"
    by (simp add: root_logger_def config_new_Logger spread_into_def)
  from withRequest_does_not_register [OF h1 h2, of dev_env "JObj [(''path'', JStr ''/api'')]" JNull JNull]
  show ?thesis using h1 h2
    by (auto simp: cfg ch default_config_def lookup_def spread_into_def)
qed

end
